theory Spec2Isabelle
  imports Complex_Main "HOL-Library.Word"
begin

unbundle bit_operations_syntax

section \<open>Values of the platform\<close>

text \<open>
  The component is the \<^verbatim>\<open>LiveChat\<close> React component together with its audio helpers
  \<^verbatim>\<open>encode\<close>, \<^verbatim>\<open>decode\<close>, \<^verbatim>\<open>decodeAudioData\<close> and \<^verbatim>\<open>createBlob\<close>.

  A JavaScript string is a sequence of 16-bit code units, a \<^verbatim>\<open>Uint8Array\<close> a sequence of
  bytes, an \<^verbatim>\<open>Int16Array\<close> a sequence of 16-bit words read as two's complement.
  \<open>js\<close> writes a literal.
\<close>

type_synonym code_unit = "16 word"
type_synonym jsstring = "code_unit list"
type_synonym byte = "8 word"

definition js :: "string \<Rightarrow> jsstring" where
  "js s = map of_char s"

datatype js_error =
    InvalidCharacterError
  | RangeError
  | NotSupportedError
  | TypeError

text \<open>
  A number held in a \<^verbatim>\<open>Float32Array\<close>. Every finite binary float is a rational number;
  multiplying one by \<open>32768 = 2 ^ 15\<close> and dividing a 16-bit integer by it are exact in
  double precision, so finite samples are modelled as reals. The three non-finite
  values are kept, since the conversion to a 16-bit integer sends them to \<open>0\<close>.
\<close>

datatype float = Num real | NaN | PosInfinity | NegInfinity

fun times_float :: "float \<Rightarrow> real \<Rightarrow> float" where
  "times_float (Num x) k = Num (x * k)"
| "times_float NaN k = NaN"
| "times_float PosInfinity k = (if 0 < k then PosInfinity else if k < 0 then NegInfinity else NaN)"
| "times_float NegInfinity k = (if 0 < k then NegInfinity else if k < 0 then PosInfinity else NaN)"

text \<open>
  Storing a number into an \<^verbatim>\<open>Int16Array\<close> applies the language's \<^verbatim>\<open>ToInt16\<close>: the number
  is truncated towards zero and reduced modulo \<open>2 ^ 16\<close> into the signed range;
  \<open>word_of_int\<close> is that reduction. There is no clamp.
\<close>

definition js_trunc :: "real \<Rightarrow> int" where
  "js_trunc x = (if 0 \<le> x then \<lfloor>x\<rfloor> else \<lceil>x\<rceil>)"

fun ToInt16 :: "float \<Rightarrow> 16 word" where
  "ToInt16 (Num x) = word_of_int (js_trunc x)"
| "ToInt16 NaN = 0"
| "ToInt16 PosInfinity = 0"
| "ToInt16 NegInfinity = 0"

section \<open>The wire text encoding\<close>

text \<open>
  Modelled from the spec: the wire text encoding. \<^verbatim>\<open>btoa\<close> and \<^verbatim>\<open>atob\<close> are functions of
  the browser, not of the repository; they are modelled after the platform's definition
  of them (base64 with padding on the way out; on the way in, white space is removed,
  one or two padding characters are dropped from an input whose length is a multiple of
  four, and a length of \<open>4 n + 1\<close> or a character outside the alphabet fails with
  \<^verbatim>\<open>InvalidCharacterError\<close>). \<^verbatim>\<open>btoa\<close> fails on a code unit above 255.
\<close>

definition b64_alphabet :: jsstring where
  "b64_alphabet = js ''ABCDEFGHIJKLMNOPQRSTUVWXYZabcdefghijklmnopqrstuvwxyz0123456789+/''"

definition b64_pad :: code_unit where
  "b64_pad = of_char CHR ''=''"

definition sextet_char :: "nat \<Rightarrow> code_unit" where
  "sextet_char n = b64_alphabet ! n"

fun b64_encode :: "nat list \<Rightarrow> jsstring" where
  "b64_encode (a # b # c # r) =
     sextet_char (a div 4) # sextet_char ((a mod 4) * 16 + b div 16) #
     sextet_char ((b mod 16) * 4 + c div 64) # sextet_char (c mod 64) # b64_encode r"
| "b64_encode [a, b] =
     [sextet_char (a div 4), sextet_char ((a mod 4) * 16 + b div 16),
      sextet_char ((b mod 16) * 4), b64_pad]"
| "b64_encode [a] = [sextet_char (a div 4), sextet_char ((a mod 4) * 16), b64_pad, b64_pad]"
| "b64_encode [] = []"

definition btoa :: "jsstring \<Rightarrow> js_error + jsstring" where
  "btoa s = (if \<exists>u \<in> set s. 255 < unat u then Inl InvalidCharacterError
             else Inr (b64_encode (map unat s)))"

definition ascii_whitespace :: "code_unit \<Rightarrow> bool" where
  "ascii_whitespace u \<longleftrightarrow> u = 9 \<or> u = 10 \<or> u = 12 \<or> u = 13 \<or> u = 32"

definition strip_padding :: "jsstring \<Rightarrow> jsstring" where
  "strip_padding s =
     (if length s mod 4 \<noteq> 0 then s
      else case rev s of
             p # q # r \<Rightarrow>
               if p = b64_pad then (if q = b64_pad then rev r else rev (q # r)) else s
           | _ \<Rightarrow> s)"

fun index_of :: "'a \<Rightarrow> 'a list \<Rightarrow> nat option" where
  "index_of x [] = None"
| "index_of x (y # ys) = (if x = y then Some 0 else map_option Suc (index_of x ys))"

definition char_sextet :: "code_unit \<Rightarrow> nat option" where
  "char_sextet u = index_of u b64_alphabet"

fun b64_decode :: "nat list \<Rightarrow> nat list" where
  "b64_decode (p # q # r # s # rest) =
     (p * 4 + q div 16) # ((q mod 16) * 16 + r div 4) # ((r mod 4) * 64 + s) # b64_decode rest"
| "b64_decode [p, q, r] = [p * 4 + q div 16, (q mod 16) * 16 + r div 4]"
| "b64_decode [p, q] = [p * 4 + q div 16]"
| "b64_decode [p] = []"
| "b64_decode [] = []"

definition atob :: "jsstring \<Rightarrow> js_error + jsstring" where
  "atob s =
     (let d = strip_padding (filter (\<lambda>u. \<not> ascii_whitespace u) s) in
      if length d mod 4 = 1 then Inl InvalidCharacterError
      else case those (map char_sextet d) of
             None \<Rightarrow> Inl InvalidCharacterError
           | Some ss \<Rightarrow> Inr (map of_nat (b64_decode ss)))"

text \<open>The six-bit groups of a byte sequence, before they are written as characters.\<close>

fun b64_sextets :: "nat list \<Rightarrow> nat list" where
  "b64_sextets (a # b # c # r) =
     (a div 4) # ((a mod 4) * 16 + b div 16) # ((b mod 16) * 4 + c div 64) # (c mod 64) #
     b64_sextets r"
| "b64_sextets [a, b] = [a div 4, (a mod 4) * 16 + b div 16, (b mod 16) * 4]"
| "b64_sextets [a] = [a div 4, (a mod 4) * 16]"
| "b64_sextets [] = []"

section \<open>The audio helpers\<close>

text \<open>
  \<^verbatim>\<open>encode\<close> appends \<^verbatim>\<open>String.fromCharCode(bytes[i])\<close> for each byte and applies \<^verbatim>\<open>btoa\<close>;
  \<^verbatim>\<open>decode\<close> applies \<^verbatim>\<open>atob\<close> and stores \<^verbatim>\<open>charCodeAt(i)\<close> into a \<^verbatim>\<open>Uint8Array\<close>, which
  keeps the low eight bits.
\<close>

fun encode_loop :: "byte list \<Rightarrow> jsstring \<Rightarrow> jsstring" where
  "encode_loop [] binary = binary"
| "encode_loop (b # bytes) binary = encode_loop bytes (binary @ [ucast b])"

definition encode :: "byte list \<Rightarrow> js_error + jsstring" where
  "encode bytes = btoa (encode_loop bytes [])"

fun decode_loop :: "jsstring \<Rightarrow> byte list \<Rightarrow> byte list" where
  "decode_loop [] bytes = bytes"
| "decode_loop (u # binaryString) bytes = decode_loop binaryString (bytes @ [ucast u])"

definition decode :: "jsstring \<Rightarrow> js_error + byte list" where
  "decode base64 =
     (case atob base64 of
        Inl e \<Rightarrow> Inl e
      | Inr binaryString \<Rightarrow> Inr (decode_loop binaryString []))"

text \<open>
  \<^verbatim>\<open>new Uint8Array(int16.buffer)\<close> and \<^verbatim>\<open>new Int16Array(data.buffer)\<close> are two views of
  one buffer: each 16-bit element is two bytes, low byte first. A byte sequence of odd
  length has no \<^verbatim>\<open>Int16Array\<close> view: the constructor throws \<^verbatim>\<open>RangeError\<close>.
\<close>

fun bytes_of_int16 :: "16 word list \<Rightarrow> byte list" where
  "bytes_of_int16 [] = []"
| "bytes_of_int16 (w # ws) = ucast w # ucast (drop_bit 8 w) # bytes_of_int16 ws"

fun int16_of_bytes :: "byte list \<Rightarrow> 16 word list" where
  "int16_of_bytes (lo # hi # bs) = (ucast lo OR push_bit 8 (ucast hi)) # int16_of_bytes bs"
| "int16_of_bytes [lo] = []"
| "int16_of_bytes [] = []"

record blob =
  data :: jsstring
  mimeType :: jsstring

fun int16_loop :: "float list \<Rightarrow> 16 word list \<Rightarrow> 16 word list" where
  "int16_loop [] int16 = int16"
| "int16_loop (x # rest) int16 = int16_loop rest (int16 @ [ToInt16 (times_float x 32768)])"

definition createBlob :: "float list \<Rightarrow> js_error + blob" where
  "createBlob samples =
     (let int16 = int16_loop samples [] in
      case encode (bytes_of_int16 int16) of
        Inl e \<Rightarrow> Inl e
      | Inr s \<Rightarrow> Inr \<lparr>data = s, mimeType = js ''audio/pcm;rate=16000''\<rparr>)"

text \<open>
  An \<^verbatim>\<open>AudioBuffer\<close>. \<^verbatim>\<open>createBuffer\<close> throws \<^verbatim>\<open>NotSupportedError\<close> for no channel or
  no frame; its frame count is converted to an integer by truncation, and a store past
  the end of a channel is ignored, so the loop over \<^verbatim>\<open>i < frameCount\<close> fills exactly
  \<open>length dataInt16 div numChannels\<close> frames. The limits on the rate and on the number
  of channels differ between browsers and are left out: the component asks for one
  channel at 24000 Hz, which every browser provides.
\<close>

record audio_buffer =
  numberOfChannels :: nat
  sampleRate :: nat
  channelData :: "real list list"

definition duration :: "audio_buffer \<Rightarrow> real" where
  "duration b = real (length (channelData b ! 0)) / real (sampleRate b)"

definition decodeAudioData :: "byte list \<Rightarrow> nat \<Rightarrow> nat \<Rightarrow> js_error + audio_buffer" where
  "decodeAudioData bytes rate numChannels =
     (if odd (length bytes) then Inl RangeError
      else
        let dataInt16 = int16_of_bytes bytes;
            frameCount = length dataInt16 div numChannels
        in if numChannels = 0 \<or> frameCount = 0 then Inl NotSupportedError
           else Inr \<lparr>numberOfChannels = numChannels, sampleRate = rate,
                  channelData =
                    map (\<lambda>channel.
                           map (\<lambda>i. real_of_int (sint (dataInt16 ! (i * numChannels + channel)))
                                     / 32768)
                             [0..<frameCount])
                      [0..<numChannels]\<rparr>)"

text \<open>
  Sending a frame out and reading it back: \<^verbatim>\<open>createBlob\<close>, then \<^verbatim>\<open>decode\<close> and
  \<^verbatim>\<open>decodeAudioData\<close> with one channel, as the component calls them.
\<close>

definition roundtrip :: "float list \<Rightarrow> js_error + real list" where
  "roundtrip samples =
     (case createBlob samples of
        Inl e \<Rightarrow> Inl e
      | Inr b \<Rightarrow>
          (case decode (data b) of
             Inl e \<Rightarrow> Inl e
           | Inr bytes \<Rightarrow>
               (case decodeAudioData bytes 24000 1 of
                  Inl e \<Rightarrow> Inl e
                | Inr buf \<Rightarrow> Inr (channelData buf ! 0))))"

section \<open>Messages of the backend\<close>

text \<open>
  A \<^verbatim>\<open>LiveServerMessage\<close>, as far as \<^verbatim>\<open>onmessage\<close> reads it. An absent field is \<open>None\<close>;
  an absent flag is \<open>False\<close>.
\<close>

datatype inline_data = InlineData "jsstring option"

datatype part = Part "inline_data option"

datatype content = Content "part list option"

datatype transcription = Transcription "jsstring option"

record server_content =
  modelTurn :: "content option"
  interrupted :: bool
  inputTranscription :: "transcription option"
  outputTranscription :: "transcription option"
  turnComplete :: bool

datatype message = Message "server_content option"

text \<open>
  \<^verbatim>\<open>message.serverContent?.modelTurn?.parts[0]?.inlineData.data\<close>: the chain stops with
  \<^verbatim>\<open>undefined\<close> at an absent \<^verbatim>\<open>serverContent\<close>, \<^verbatim>\<open>modelTurn\<close> or first part, and throws
  \<^verbatim>\<open>TypeError\<close> at an absent \<^verbatim>\<open>parts\<close> or \<^verbatim>\<open>inlineData\<close>, which are read without \<^verbatim>\<open>?.\<close>.
\<close>

fun audioData_of :: "message \<Rightarrow> js_error + jsstring option" where
  "audioData_of (Message None) = Inr None"
| "audioData_of (Message (Some sc)) =
     (case modelTurn sc of
        None \<Rightarrow> Inr None
      | Some (Content None) \<Rightarrow> Inl TypeError
      | Some (Content (Some [])) \<Rightarrow> Inr None
      | Some (Content (Some (Part None # ps))) \<Rightarrow> Inl TypeError
      | Some (Content (Some (Part (Some (InlineData d)) # ps))) \<Rightarrow> Inr d)"

fun is_interrupted :: "message \<Rightarrow> bool" where
  "is_interrupted (Message None) = False"
| "is_interrupted (Message (Some sc)) = interrupted sc"

fun is_turnComplete :: "message \<Rightarrow> bool" where
  "is_turnComplete (Message None) = False"
| "is_turnComplete (Message (Some sc)) = turnComplete sc"

text \<open>The text a transcription appends: \<^verbatim>\<open>prev + undefined\<close> appends the word.\<close>

fun transcription_text :: "transcription \<Rightarrow> jsstring" where
  "transcription_text (Transcription None) = js ''undefined''"
| "transcription_text (Transcription (Some t)) = t"

fun inputTranscription_of :: "message \<Rightarrow> transcription option" where
  "inputTranscription_of (Message None) = None"
| "inputTranscription_of (Message (Some sc)) = inputTranscription sc"

fun outputTranscription_of :: "message \<Rightarrow> transcription option" where
  "outputTranscription_of (Message None) = None"
| "outputTranscription_of (Message (Some sc)) = outputTranscription sc"

section \<open>The state of the component\<close>

text \<open>
  The state is the React state of \<^verbatim>\<open>LiveChat\<close>, its refs, and a store of the platform
  objects the refs and callbacks point to. An object is named by a handle; handles are
  never reused.

  \<^item> \<open>MediaStream stopped\<close>: the microphone stream and whether its tracks are stopped.
  \<^item> \<open>AudioContext rate isClosed\<close>.
  \<^item> \<open>MediaStreamSourceNode stream isConnected\<close> and \<open>ScriptProcessorNode isConnected\<close>:
    the capture graph; \<^verbatim>\<open>disconnect()\<close> clears the flag.
  \<^item> \<open>BufferSourceNode buffer when isStopped\<close>: a playback source started at \<open>when\<close>.
  \<^item> \<open>SessionPromise state stream input output\<close>: the promise \<^verbatim>\<open>ai.live.connect\<close>
    returned, with what the callbacks given to that call captured: the \<^verbatim>\<open>stream\<close> and
    the \<^verbatim>\<open>currentInput\<close> and \<^verbatim>\<open>currentOutput\<close> of the render whose \<^verbatim>\<open>startSession\<close> ran.
  \<^item> \<open>Session isClosed faulty received\<close>: the session a promise was fulfilled with, and
    the chunks it has accepted. A faulty session throws on \<^verbatim>\<open>sendRealtimeInput\<close>; a
    closed one drops what it is given.
  \<^item> \<open>StartCall input output\<close>: a call of \<^verbatim>\<open>startSession\<close> waiting for
    \<^verbatim>\<open>getUserMedia\<close>, with the two values its closure holds.

  A callback registered with \<^verbatim>\<open>then\<close> on a pending promise waits in its queue. On a
  fulfilled promise it runs once the current handler is done; it touches the session
  only, which the rest of the handler does not read, so it is run at once.
  \<open>uncaught\<close> counts the exceptions and rejections nothing handles.
\<close>

type_synonym handle = nat

record turn =
  user :: jsstring
  model :: jsstring

datatype reaction = CloseSession | SendRealtimeInput blob

datatype promise_state = Pending "reaction list" | Fulfilled handle | Rejected

datatype obj =
    MediaStream bool
  | AudioContext nat bool
  | MediaStreamSourceNode handle bool
  | ScriptProcessorNode bool
  | BufferSourceNode audio_buffer real bool
  | SessionPromise promise_state handle jsstring jsstring
  | Session bool bool "blob list"
  | StartCall jsstring jsstring

record world =
  isSessionActive :: bool
  error :: "jsstring option"
  transcripts :: "turn list"
  currentInput :: jsstring
  currentOutput :: jsstring
  sessionPromiseRef :: "handle option"
  mediaStreamRef :: "handle option"
  inputAudioContextRef :: "handle option"
  outputAudioContextRef :: "handle option"
  scriptProcessorRef :: "handle option"
  mediaStreamSourceRef :: "handle option"
  nextStartTimeRef :: real
  sourcesRef :: "handle list"
  heap :: "handle \<Rightarrow> obj option"
  nextHandle :: handle
  uncaught :: nat

definition initial_world :: world where
  "initial_world =
     \<lparr>isSessionActive = False, error = None, transcripts = [], currentInput = [],
      currentOutput = [], sessionPromiseRef = None, mediaStreamRef = None,
      inputAudioContextRef = None, outputAudioContextRef = None, scriptProcessorRef = None,
      mediaStreamSourceRef = None, nextStartTimeRef = 0, sourcesRef = [],
      heap = (\<lambda>h. None), nextHandle = 0, uncaught = 0\<rparr>"

definition alloc :: "obj \<Rightarrow> world \<Rightarrow> handle \<times> world" where
  "alloc ob w =
     (nextHandle w, w\<lparr>heap := (heap w)(nextHandle w \<mapsto> ob), nextHandle := Suc (nextHandle w)\<rparr>)"

definition update_obj :: "handle \<Rightarrow> (obj \<Rightarrow> obj) \<Rightarrow> world \<Rightarrow> world" where
  "update_obj h f w =
     (case heap w h of None \<Rightarrow> w | Some ob \<Rightarrow> w\<lparr>heap := (heap w)(h \<mapsto> f ob)\<rparr>)"

fun track_stop :: "obj \<Rightarrow> obj" where
  "track_stop (MediaStream isStopped) = MediaStream True"
| "track_stop ob = ob"

fun node_connect :: "obj \<Rightarrow> obj" where
  "node_connect (MediaStreamSourceNode stream isConnected) = MediaStreamSourceNode stream True"
| "node_connect (ScriptProcessorNode isConnected) = ScriptProcessorNode True"
| "node_connect ob = ob"

fun node_disconnect :: "obj \<Rightarrow> obj" where
  "node_disconnect (MediaStreamSourceNode stream isConnected) = MediaStreamSourceNode stream False"
| "node_disconnect (ScriptProcessorNode isConnected) = ScriptProcessorNode False"
| "node_disconnect ob = ob"

fun context_close :: "obj \<Rightarrow> obj" where
  "context_close (AudioContext rate isClosed) = AudioContext rate True"
| "context_close ob = ob"

fun source_stop :: "obj \<Rightarrow> obj" where
  "source_stop (BufferSourceNode buffer when isStopped) = BufferSourceNode buffer when True"
| "source_stop ob = ob"

fun session_close :: "obj \<Rightarrow> obj" where
  "session_close (Session isClosed faulty received) = Session True faulty received"
| "session_close ob = ob"

fun session_fault :: "obj \<Rightarrow> obj" where
  "session_fault (Session isClosed faulty received) = Session isClosed True received"
| "session_fault ob = ob"

text \<open>What a callback registered on the session promise does with the session.\<close>

fun run_reaction :: "handle \<Rightarrow> reaction \<Rightarrow> world \<Rightarrow> world" where
  "run_reaction s CloseSession w = update_obj s session_close w"
| "run_reaction s (SendRealtimeInput b) w =
     (case heap w s of
        Some (Session isClosed faulty received) \<Rightarrow>
          if faulty then w\<lparr>uncaught := Suc (uncaught w)\<rparr>
          else if isClosed then w
          else w\<lparr>heap := (heap w)(s \<mapsto> Session isClosed faulty (received @ [b]))\<rparr>
      | _ \<Rightarrow> w)"

text \<open>\<^verbatim>\<open>promise.then(callback)\<close>, with no rejection handler.\<close>

definition promise_then :: "handle \<Rightarrow> reaction \<Rightarrow> world \<Rightarrow> world" where
  "promise_then p r w =
     (case heap w p of
        Some (SessionPromise (Pending q) stream cin cout) \<Rightarrow>
          w\<lparr>heap := (heap w)(p \<mapsto> SessionPromise (Pending (q @ [r])) stream cin cout)\<rparr>
      | Some (SessionPromise (Fulfilled s) stream cin cout) \<Rightarrow> run_reaction s r w
      | Some (SessionPromise Rejected stream cin cout) \<Rightarrow> w\<lparr>uncaught := Suc (uncaught w)\<rparr>
      | _ \<Rightarrow> w)"

fun stop_all :: "handle list \<Rightarrow> world \<Rightarrow> world" where
  "stop_all [] w = w"
| "stop_all (h # hs) w = stop_all hs (update_obj h source_stop w)"

section \<open>stopSession\<close>

text \<open>
  \<^verbatim>\<open>stopSession\<close> is six pairs of statements, one per ref, each an optional call
  followed by setting the ref to \<^verbatim>\<open>null\<close>; then the playback sources are stopped, the
  set is cleared, \<^verbatim>\<open>nextStartTimeRef\<close> is reset and \<^verbatim>\<open>isSessionActive\<close> is set to false.
\<close>

definition close_session :: "world \<Rightarrow> world" where
  "close_session w =
     (case sessionPromiseRef w of
        None \<Rightarrow> w
      | Some p \<Rightarrow> promise_then p CloseSession w)\<lparr>sessionPromiseRef := None\<rparr>"

definition release_stream :: "world \<Rightarrow> world" where
  "release_stream w =
     (case mediaStreamRef w of
        None \<Rightarrow> w
      | Some s \<Rightarrow> update_obj s track_stop w)\<lparr>mediaStreamRef := None\<rparr>"

definition release_processor :: "world \<Rightarrow> world" where
  "release_processor w =
     (case scriptProcessorRef w of
        None \<Rightarrow> w
      | Some n \<Rightarrow> update_obj n node_disconnect w)\<lparr>scriptProcessorRef := None\<rparr>"

definition release_source :: "world \<Rightarrow> world" where
  "release_source w =
     (case mediaStreamSourceRef w of
        None \<Rightarrow> w
      | Some n \<Rightarrow> update_obj n node_disconnect w)\<lparr>mediaStreamSourceRef := None\<rparr>"

definition release_input :: "world \<Rightarrow> world" where
  "release_input w =
     (case inputAudioContextRef w of
        None \<Rightarrow> w
      | Some c \<Rightarrow> update_obj c context_close w)\<lparr>inputAudioContextRef := None\<rparr>"

definition release_output :: "world \<Rightarrow> world" where
  "release_output w =
     (case outputAudioContextRef w of
        None \<Rightarrow> w
      | Some c \<Rightarrow> update_obj c context_close w)\<lparr>outputAudioContextRef := None\<rparr>"

definition flush_playback :: "world \<Rightarrow> world" where
  "flush_playback w = (stop_all (sourcesRef w) w)\<lparr>sourcesRef := [], nextStartTimeRef := 0\<rparr>"

definition stopSession :: "world \<Rightarrow> world" where
  "stopSession w =
     (flush_playback
       (release_output
         (release_input
           (release_source
             (release_processor
               (release_stream
                 (close_session w)))))))\<lparr>isSessionActive := False\<rparr>"

section \<open>startSession\<close>

text \<open>
  \<^verbatim>\<open>startSession\<close> resets the React state and awaits \<^verbatim>\<open>getUserMedia\<close>; what follows the
  \<^verbatim>\<open>await\<close> runs in a later task. Everything inside the \<^verbatim>\<open>try\<close> that can throw is a
  \<open>start_fault\<close>: the \<^verbatim>\<open>catch\<close> sets the error text and clears \<^verbatim>\<open>isSessionActive\<close>, and
  leaves what was stored in the refs before the fault. The function has no check of
  \<^verbatim>\<open>isSessionActive\<close> or of the refs. The promise of \<^verbatim>\<open>ai.live.connect\<close> is stored, not
  awaited.
\<close>

datatype start_fault =
    NoFault
  | GetUserMediaFails jsstring
  | InputContextFails jsstring
  | OutputContextFails jsstring
  | ClientFails jsstring

definition startSession_begin :: "world \<Rightarrow> handle \<times> world" where
  "startSession_begin w =
     alloc (StartCall (currentInput w) (currentOutput w))
       (w\<lparr>error := None, transcripts := [], currentInput := [], currentOutput := [],
          isSessionActive := True\<rparr>)"

definition start_catch :: "jsstring \<Rightarrow> world \<Rightarrow> world" where
  "start_catch msg w =
     w\<lparr>error := Some (js ''Failed to start session: '' @ msg), isSessionActive := False\<rparr>"

definition acquire_stream :: "world \<Rightarrow> handle \<times> world" where
  "acquire_stream w =
     (let (stream, w1) = alloc (MediaStream False) w
      in (stream, w1\<lparr>mediaStreamRef := Some stream\<rparr>))"

definition create_input :: "world \<Rightarrow> world" where
  "create_input w =
     (let (c, w1) = alloc (AudioContext 16000 False) w
      in w1\<lparr>inputAudioContextRef := Some c\<rparr>)"

definition create_output :: "world \<Rightarrow> world" where
  "create_output w =
     (let (c, w1) = alloc (AudioContext 24000 False) w
      in w1\<lparr>outputAudioContextRef := Some c\<rparr>)"

definition connect :: "handle \<Rightarrow> jsstring \<Rightarrow> jsstring \<Rightarrow> world \<Rightarrow> world" where
  "connect stream cin cout w =
     (let (p, w1) = alloc (SessionPromise (Pending []) stream cin cout) w
      in w1\<lparr>sessionPromiseRef := Some p\<rparr>)"

definition startSession_resume :: "jsstring \<Rightarrow> jsstring \<Rightarrow> start_fault \<Rightarrow> world \<Rightarrow> world" where
  "startSession_resume cin cout fault w =
     (case fault of
        GetUserMediaFails msg \<Rightarrow> start_catch msg w
      | _ \<Rightarrow>
          let (stream, w1) = acquire_stream w in
          (case fault of
             InputContextFails msg \<Rightarrow> start_catch msg w1
           | _ \<Rightarrow>
               let w2 = create_input w1 in
               (case fault of
                  OutputContextFails msg \<Rightarrow> start_catch msg w2
                | _ \<Rightarrow>
                    let w3 = create_output w2 in
                    (case fault of
                       ClientFails msg \<Rightarrow> start_catch msg w3
                     | _ \<Rightarrow> connect stream cin cout w3))))"

text \<open>A call of \<^verbatim>\<open>startSession\<close> that nothing interleaves with.\<close>

definition startSession :: "start_fault \<Rightarrow> world \<Rightarrow> world" where
  "startSession fault w =
     (let (c, w1) = startSession_begin w
      in startSession_resume (currentInput w) (currentOutput w) fault
           (w1\<lparr>heap := (heap w1)(c := None)\<rparr>))"

text \<open>The button: \<^verbatim>\<open>onClick={isSessionActive ? stopSession : startSession}\<close>.\<close>

definition onClick :: "world \<Rightarrow> world" where
  "onClick w = (if isSessionActive w then stopSession w else snd (startSession_begin w))"

section \<open>The callbacks of the session\<close>

text \<open>
  \<^verbatim>\<open>onopen\<close> builds the capture graph: it reads \<^verbatim>\<open>inputAudioContextRef.current!\<close>, which
  throws \<^verbatim>\<open>TypeError\<close> on \<^verbatim>\<open>null\<close>, creates the source node of the captured stream and
  the script processor, stores both, sets \<^verbatim>\<open>onaudioprocess\<close> and connects the two nodes.
  Nothing else in the component creates a script processor.
\<close>

definition onopen :: "handle \<Rightarrow> world \<Rightarrow> (js_error \<times> world) + world" where
  "onopen stream w =
     (case inputAudioContextRef w of
        None \<Rightarrow> Inl (TypeError, w)
      | Some ctx \<Rightarrow>
          let (source, w1) = alloc (MediaStreamSourceNode stream False) w;
              w2 = w1\<lparr>mediaStreamSourceRef := Some source\<rparr>;
              (scriptProcessor, w3) = alloc (ScriptProcessorNode False) w2;
              w4 = w3\<lparr>scriptProcessorRef := Some scriptProcessor\<rparr>;
              w5 = update_obj source node_connect w4
          in Inr (update_obj scriptProcessor node_connect w5))"

text \<open>
  \<^verbatim>\<open>onaudioprocess\<close>: the frame is encoded, and the send is a callback on the promise
  that \<^verbatim>\<open>sessionPromiseRef\<close> holds when the frame arrives; with \<^verbatim>\<open>null\<close> there, \<^verbatim>\<open>?.\<close>
  skips it.
\<close>

definition onaudioprocess :: "float list \<Rightarrow> world \<Rightarrow> (js_error \<times> world) + world" where
  "onaudioprocess inputData w =
     (case createBlob inputData of
        Inl e \<Rightarrow> Inl (e, w)
      | Inr pcmBlob \<Rightarrow>
          Inr (case sessionPromiseRef w of
                 None \<Rightarrow> w
               | Some p \<Rightarrow> promise_then p (SendRealtimeInput pcmBlob) w))"

text \<open>
  \<^verbatim>\<open>onmessage\<close>, first block: playback. \<open>now\<close> is \<^verbatim>\<open>outCtx.currentTime\<close>.
  \<^verbatim>\<open>nextStartTimeRef\<close> is raised to the clock before the data is decoded, so a failing
  decode leaves it raised. \<^verbatim>\<open>start(when)\<close> throws \<^verbatim>\<open>RangeError\<close> for a negative time. The
  awaited \<^verbatim>\<open>decodeAudioData\<close> has no \<^verbatim>\<open>await\<close> of its own: its promise is settled when
  it returns, and the handler goes on before any other task runs.
\<close>

definition handle_audio :: "real \<Rightarrow> message \<Rightarrow> world \<Rightarrow> (js_error \<times> world) + world" where
  "handle_audio now m w =
     (case audioData_of m of
        Inl e \<Rightarrow> Inl (e, w)
      | Inr None \<Rightarrow> Inr w
      | Inr (Some audioData) \<Rightarrow>
          if audioData = [] then Inr w
          else
            (case outputAudioContextRef w of
               None \<Rightarrow> Inl (TypeError, w)
             | Some outCtx \<Rightarrow>
                 let w1 = w\<lparr>nextStartTimeRef := max (nextStartTimeRef w) now\<rparr> in
                 (case decode audioData of
                    Inl e \<Rightarrow> Inl (e, w1)
                  | Inr bytes \<Rightarrow>
                      (case decodeAudioData bytes 24000 1 of
                         Inl e \<Rightarrow> Inl (e, w1)
                       | Inr audioBuffer \<Rightarrow>
                           if nextStartTimeRef w1 < 0 then
                             Inl (RangeError,
                               snd (alloc (BufferSourceNode audioBuffer 0 True) w1))
                           else
                             let (source, w2) =
                                   alloc (BufferSourceNode audioBuffer (nextStartTimeRef w1) False) w1
                             in Inr (w2\<lparr>nextStartTimeRef :=
                                          nextStartTimeRef w2 + duration audioBuffer,
                                        sourcesRef :=
                                          (if source \<in> set (sourcesRef w2) then sourcesRef w2
                                           else sourcesRef w2 @ [source])\<rparr>)))))"

text \<open>Second block: an interruption stops and forgets every tracked source.\<close>

definition handle_interrupted :: "message \<Rightarrow> world \<Rightarrow> world" where
  "handle_interrupted m w = (if is_interrupted m then flush_playback w else w)"

text \<open>
  Third block: the transcriptions. The two updaters append to the state as it is. The
  turn is built from \<^verbatim>\<open>currentInput\<close> and \<^verbatim>\<open>currentOutput\<close> as the callback's closure
  holds them: \<open>cin\<close> and \<open>cout\<close>, fixed when \<^verbatim>\<open>startSession\<close> was called.
\<close>

definition handle_transcriptions :: "jsstring \<Rightarrow> jsstring \<Rightarrow> message \<Rightarrow> world \<Rightarrow> world" where
  "handle_transcriptions cin cout m w =
     (let w1 = (case inputTranscription_of m of
                  None \<Rightarrow> w
                | Some t \<Rightarrow> w\<lparr>currentInput := currentInput w @ transcription_text t\<rparr>);
          w2 = (case outputTranscription_of m of
                  None \<Rightarrow> w1
                | Some t \<Rightarrow> w1\<lparr>currentOutput := currentOutput w1 @ transcription_text t\<rparr>)
      in if is_turnComplete m
         then w2\<lparr>transcripts := transcripts w2 @ [\<lparr>user = cin, model = cout\<rparr>],
                 currentInput := [], currentOutput := []\<rparr>
         else w2)"

definition onmessage ::
  "jsstring \<Rightarrow> jsstring \<Rightarrow> real \<Rightarrow> message \<Rightarrow> world \<Rightarrow> (js_error \<times> world) + world" where
  "onmessage cin cout now m w =
     (case handle_audio now m w of
        Inl ew \<Rightarrow> Inl ew
      | Inr w1 \<Rightarrow> Inr (handle_transcriptions cin cout m (handle_interrupted m w1)))"

definition onerror :: "jsstring \<Rightarrow> world \<Rightarrow> world" where
  "onerror msg w = stopSession (w\<lparr>error := Some (js ''Session error: '' @ msg)\<rparr>)"

definition onclose :: "world \<Rightarrow> world" where
  "onclose w = stopSession w"

section \<open>Executions\<close>

text \<open>
  What can happen to a mounted component: the button is pressed, the component is
  unmounted, a pending \<^verbatim>\<open>getUserMedia\<close> settles, the session promise of a connect call
  is fulfilled or rejected, one of the callbacks given to that call is invoked, a
  script processor delivers a frame, a playback source ends, a session's transport
  breaks. An event that names an object of the wrong kind does not happen. An exception
  that leaves a handler is counted and the state it left stands.
\<close>

datatype event =
    Click
  | Unmount
  | MediaSettled handle start_fault
  | Resolved handle
  | Refused handle
  | OnOpen handle
  | OnMessage handle real message
  | OnError handle jsstring
  | OnClose handle
  | OnAudioProcess handle "float list"
  | OnEnded handle
  | TransportFault handle

fun settle :: "(js_error \<times> world) + world \<Rightarrow> world" where
  "settle (Inl (e, w)) = w\<lparr>uncaught := Suc (uncaught w)\<rparr>"
| "settle (Inr w) = w"

fun run_reactions :: "handle \<Rightarrow> reaction list \<Rightarrow> world \<Rightarrow> world" where
  "run_reactions s [] w = w"
| "run_reactions s (r # rs) w = run_reactions s rs (run_reaction s r w)"

definition resolve :: "handle \<Rightarrow> world \<Rightarrow> world" where
  "resolve p w =
     (case heap w p of
        Some (SessionPromise (Pending q) stream cin cout) \<Rightarrow>
          let (s, w1) = alloc (Session False False []) w
          in run_reactions s q
               (w1\<lparr>heap := (heap w1)(p \<mapsto> SessionPromise (Fulfilled s) stream cin cout)\<rparr>)
      | _ \<Rightarrow> w)"

text \<open>
  The connect promise is stored with no handler of its own. When it is rejected with no
  callback registered on it, the promise itself is one unhandled rejection; otherwise
  each promise a \<^verbatim>\<open>then\<close> returned is rejected with it, and nothing handles any of them. The
  callbacks never run.
\<close>

definition refuse :: "handle \<Rightarrow> world \<Rightarrow> world" where
  "refuse p w =
     (case heap w p of
        Some (SessionPromise (Pending q) stream cin cout) \<Rightarrow>
          w\<lparr>heap := (heap w)(p \<mapsto> SessionPromise Rejected stream cin cout),
            uncaught := uncaught w + max 1 (length q)\<rparr>
      | _ \<Rightarrow> w)"

fun step :: "event \<Rightarrow> world \<Rightarrow> world" where
  "step Click w = onClick w"
| "step Unmount w = stopSession w"
| "step (MediaSettled c fault) w =
     (case heap w c of
        Some (StartCall cin cout) \<Rightarrow>
          startSession_resume cin cout fault (w\<lparr>heap := (heap w)(c := None)\<rparr>)
      | _ \<Rightarrow> w)"
| "step (Resolved p) w = resolve p w"
| "step (Refused p) w = refuse p w"
| "step (OnOpen p) w =
     (case heap w p of
        Some (SessionPromise st stream cin cout) \<Rightarrow> settle (onopen stream w)
      | _ \<Rightarrow> w)"
| "step (OnMessage p now m) w =
     (case heap w p of
        Some (SessionPromise st stream cin cout) \<Rightarrow> settle (onmessage cin cout now m w)
      | _ \<Rightarrow> w)"
| "step (OnError p msg) w =
     (case heap w p of
        Some (SessionPromise st stream cin cout) \<Rightarrow> onerror msg w
      | _ \<Rightarrow> w)"
| "step (OnClose p) w =
     (case heap w p of
        Some (SessionPromise st stream cin cout) \<Rightarrow> onclose w
      | _ \<Rightarrow> w)"
| "step (OnAudioProcess n inputData) w =
     (case heap w n of
        Some (ScriptProcessorNode isConnected) \<Rightarrow> settle (onaudioprocess inputData w)
      | _ \<Rightarrow> w)"
| "step (OnEnded h) w =
     (case heap w h of
        Some (BufferSourceNode buffer when isStopped) \<Rightarrow>
          w\<lparr>sourcesRef := removeAll h (sourcesRef w)\<rparr>
      | _ \<Rightarrow> w)"
| "step (TransportFault s) w = update_obj s session_fault w"

fun run :: "event list \<Rightarrow> world \<Rightarrow> world" where
  "run [] w = w"
| "run (e # es) w = run es (step e w)"

section \<open>Notions the statements use\<close>

text \<open>Every ref is \<^verbatim>\<open>null\<close> and nothing is tracked: no session, nothing to release.\<close>

definition released :: "world \<Rightarrow> bool" where
  "released w \<longleftrightarrow>
     sessionPromiseRef w = None \<and> mediaStreamRef w = None \<and> scriptProcessorRef w = None \<and>
     mediaStreamSourceRef w = None \<and> inputAudioContextRef w = None \<and>
     outputAudioContextRef w = None \<and> sourcesRef w = []"

fun is_source :: "obj \<Rightarrow> bool" where
  "is_source (BufferSourceNode buffer when isStopped) = True"
| "is_source ob = False"

fun is_session_object :: "obj \<Rightarrow> bool" where
  "is_session_object (SessionPromise st stream cin cout) = True"
| "is_session_object (Session isClosed faulty received) = True"
| "is_session_object ob = False"

text \<open>A playback source that was started and not stopped.\<close>

fun is_playing :: "obj option \<Rightarrow> bool" where
  "is_playing (Some (BufferSourceNode buffer when isStopped)) = (\<not> isStopped)"
| "is_playing ob = False"

definition playing :: "world \<Rightarrow> handle \<Rightarrow> bool" where
  "playing w h = is_playing (heap w h)"

text \<open>The message carries audio: \<^verbatim>\<open>if (audioData)\<close> holds.\<close>

definition has_audio :: "message \<Rightarrow> bool" where
  "has_audio m =
     (case audioData_of m of Inr (Some audioData) \<Rightarrow> audioData \<noteq> [] | _ \<Rightarrow> False)"

text \<open>Messages and states of an example session.\<close>

definition audio_message :: "jsstring \<Rightarrow> message" where
  "audio_message d =
     Message (Some \<lparr>modelTurn = Some (Content (Some [Part (Some (InlineData (Some d)))])),
                    interrupted = False, inputTranscription = None,
                    outputTranscription = None, turnComplete = False\<rparr>)"

definition interrupt_message :: message where
  "interrupt_message =
     Message (Some \<lparr>modelTurn = None, interrupted = True, inputTranscription = None,
                    outputTranscription = None, turnComplete = False\<rparr>)"

text \<open>
  An interrupting message whose first part is a text part: \<^verbatim>\<open>{text: ...}\<close>, with no
  \<^verbatim>\<open>inlineData\<close>.
\<close>

definition text_interrupt_message :: message where
  "text_interrupt_message =
     Message (Some \<lparr>modelTurn = Some (Content (Some [Part None])), interrupted = True,
                    inputTranscription = None, outputTranscription = None,
                    turnComplete = False\<rparr>)"

definition input_message :: "jsstring \<Rightarrow> message" where
  "input_message t =
     Message (Some \<lparr>modelTurn = None, interrupted = False,
                    inputTranscription = Some (Transcription (Some t)),
                    outputTranscription = None, turnComplete = False\<rparr>)"

definition output_message :: "jsstring \<Rightarrow> message" where
  "output_message t =
     Message (Some \<lparr>modelTurn = None, interrupted = False, inputTranscription = None,
                    outputTranscription = Some (Transcription (Some t)),
                    turnComplete = False\<rparr>)"

definition turn_complete_message :: message where
  "turn_complete_message =
     Message (Some \<lparr>modelTurn = None, interrupted = False, inputTranscription = None,
                    outputTranscription = None, turnComplete = True\<rparr>)"

text \<open>The chunk \<^verbatim>\<open>createBlob\<close> makes of a frame of one silent sample.\<close>

definition silent_chunk :: blob where
  "silent_chunk = \<lparr>data = js ''AAA='', mimeType = js ''audio/pcm;rate=16000''\<rparr>"

text \<open>
  A session that was started from the initial state and is open: the call of
  \<^verbatim>\<open>startSession\<close> is object 0, the stream 1, the two contexts 2 and 3, the session promise
  4, the capture nodes 5 and 6, the session 7.
\<close>

definition open_world :: world where
  "open_world = run [Click, MediaSettled 0 NoFault, OnOpen 4, Resolved 4] initial_world"

text \<open>
  The same session before its promise is resolved: \<^verbatim>\<open>onopen\<close> has run and the capture
  graph is there, the promise is pending and no session object exists.
\<close>

definition opening_world :: world where
  "opening_world = run [Click, MediaSettled 0 NoFault, OnOpen 4] initial_world"

text \<open>
  A start that was stopped too early. The button is pressed, and pressed again while
  \<^verbatim>\<open>getUserMedia\<close> is pending: that click is \<^verbatim>\<open>stopSession\<close>, which finds every ref
  \<^verbatim>\<open>null\<close> and clears \<^verbatim>\<open>isSessionActive\<close>. The pending call goes on when \<^verbatim>\<open>getUserMedia\<close>
  settles, and the session opens: objects 1 to 7 as above, with the button showing
  \<open>Start Conversation\<close>. \<open>restarted_world\<close>: the button is pressed then, and that call of
  \<^verbatim>\<open>startSession\<close>, object 8, goes on to connect: stream 9, contexts 10 and 11, session
  promise 12. \<open>restarted_stopped_world\<close>: the button is pressed once more, to stop.
\<close>

definition orphan_world :: world where
  "orphan_world =
     run [Click, Click, MediaSettled 0 NoFault, OnOpen 4, Resolved 4] initial_world"

definition restarted_world :: world where
  "restarted_world = run [Click, MediaSettled 8 NoFault] orphan_world"

definition restarted_stopped_world :: world where
  "restarted_stopped_world = step Click restarted_world"

text \<open>The open session after one chunk of two silent frames was scheduled at time 1.\<close>

definition playing_world :: world where
  "playing_world = step (OnMessage 4 1 (audio_message (js ''AAAAAA==''))) open_world"

text \<open>The open session after its transport broke.\<close>

definition faulty_world :: world where
  "faulty_world = step (TransportFault 7) open_world"

text \<open>The open session after a second chunk arrived while the first was still due.\<close>

definition chained_world :: world where
  "chained_world = step (OnMessage 4 1 (audio_message (js ''AAAAAA==''))) playing_world"

section \<open>Playback times\<close>

text \<open>
  The time a playback source was started at, and the time its buffer ends: the start
  plus the duration. \<open>gapless\<close>: in the order of arrival, every tracked source ends
  before every later one starts, and none ends after \<^verbatim>\<open>nextStartTimeRef\<close>.
\<close>

fun start_of :: "obj option \<Rightarrow> real" where
  "start_of (Some (BufferSourceNode buffer when isStopped)) = when"
| "start_of ob = 0"

fun end_of :: "obj option \<Rightarrow> real" where
  "end_of (Some (BufferSourceNode buffer when isStopped)) = when + duration buffer"
| "end_of ob = 0"

definition source_start :: "world \<Rightarrow> handle \<Rightarrow> real" where
  "source_start w h = start_of (heap w h)"

definition source_end :: "world \<Rightarrow> handle \<Rightarrow> real" where
  "source_end w h = end_of (heap w h)"

definition gapless :: "world \<Rightarrow> bool" where
  "gapless w \<longleftrightarrow>
     sorted_wrt (\<lambda>h k. source_end w h \<le> source_start w k) (sourcesRef w) \<and>
     (\<forall>h \<in> set (sourcesRef w). source_end w h \<le> nextStartTimeRef w)"

section \<open>What was sent\<close>

text \<open>
  The chunks a session has accepted, the chunks waiting on a pending promise, and
  whether an object is a script processor (which is created with its
  \<^verbatim>\<open>onaudioprocess\<close> handler set).
\<close>

definition received_by :: "world \<Rightarrow> handle \<Rightarrow> blob list" where
  "received_by w s =
     (case heap w s of Some (Session isClosed faulty received) \<Rightarrow> received | _ \<Rightarrow> [])"

fun pending_sends :: "promise_state \<Rightarrow> blob list" where
  "pending_sends (Pending q) =
     concat (map (\<lambda>r. case r of SendRealtimeInput b \<Rightarrow> [b] | CloseSession \<Rightarrow> []) q)"
| "pending_sends st = []"

definition queued_sends :: "world \<Rightarrow> handle \<Rightarrow> blob list" where
  "queued_sends w p =
     (case heap w p of
        Some (SessionPromise st stream cin cout) \<Rightarrow> pending_sends st
      | _ \<Rightarrow> [])"

definition wired :: "world \<Rightarrow> handle \<Rightarrow> bool" where
  "wired w n = (case heap w n of Some (ScriptProcessorNode isConnected) \<Rightarrow> True | _ \<Rightarrow> False)"

fun is_resolved :: "event \<Rightarrow> bool" where
  "is_resolved (Resolved p) = True"
| "is_resolved e = False"

fun is_onopen :: "event \<Rightarrow> bool" where
  "is_onopen (OnOpen p) = True"
| "is_onopen e = False"

section \<open>The shape of the store\<close>

text \<open>
  For the invariants of an execution, an object is read up to what no method call
  changes: its kind, for a playback source its two times, for a promise whether a send
  waits on it. A call of \<^verbatim>\<open>startSession\<close> that waits counts as nothing, since it leaves
  the store when it goes on. \<open>changed\<close> lists what one event can do to the shape at a
  handle; \<open>playback_effect\<close> what it can do to the tracked set and to
  \<^verbatim>\<open>nextStartTimeRef\<close>.
\<close>

datatype shape = Vacant | Plain | Processor | Source real real | Promise bool | SessionShape

fun shape_of :: "obj option \<Rightarrow> shape" where
  "shape_of None = Vacant"
| "shape_of (Some (StartCall cin cout)) = Vacant"
| "shape_of (Some (ScriptProcessorNode isConnected)) = Processor"
| "shape_of (Some (BufferSourceNode buffer when isStopped)) = Source when (when + duration buffer)"
| "shape_of (Some (SessionPromise st stream cin cout)) = Promise (pending_sends st \<noteq> [])"
| "shape_of (Some (Session isClosed faulty received)) = SessionShape"
| "shape_of (Some (MediaStream isStopped)) = Plain"
| "shape_of (Some (AudioContext rate isClosed)) = Plain"
| "shape_of (Some (MediaStreamSourceNode stream isConnected)) = Plain"

definition shape :: "world \<Rightarrow> handle \<Rightarrow> shape" where
  "shape w h = shape_of (heap w h)"

fun rcv_of :: "obj option \<Rightarrow> blob list" where
  "rcv_of (Some (Session isClosed faulty received)) = received"
| "rcv_of ob = []"

definition changed :: "event \<Rightarrow> world \<Rightarrow> world \<Rightarrow> handle \<Rightarrow> bool" where
  "changed e w w' k \<longleftrightarrow>
     shape w k = shape w' k \<or>
     ((\<exists>b. shape w k = Promise b) \<and> shape w' k = Promise False) \<or>
     ((\<exists>b. shape w k = Promise b) \<and> shape w' k = Promise True \<and> (\<exists>n. shape w n = Processor)) \<or>
     (nextHandle w \<le> k \<and>
        (shape w' k = Plain \<or> shape w' k = Vacant \<or> shape w' k = Promise False \<or>
         (\<exists>a b. shape w' k = Source a b) \<or>
         (is_onopen e \<and> shape w' k = Processor) \<or>
         (is_resolved e \<and> shape w' k = SessionShape)))"

definition unwired :: "world \<Rightarrow> bool" where
  "unwired w \<longleftrightarrow> (\<forall>h. shape w h \<noteq> Processor \<and> shape w h \<noteq> Promise True)"

definition playback_effect :: "world \<Rightarrow> world \<Rightarrow> bool" where
  "playback_effect w w' \<longleftrightarrow>
     sourcesRef w' = [] \<or>
     (sourcesRef w' = sourcesRef w \<and> nextStartTimeRef w \<le> nextStartTimeRef w') \<or>
     (\<exists>h. sourcesRef w' = removeAll h (sourcesRef w) \<and>
        nextStartTimeRef w' = nextStartTimeRef w) \<or>
     (\<exists>s d. sourcesRef w' = sourcesRef w @ [nextHandle w] \<and> nextStartTimeRef w \<le> s \<and> 0 \<le> d \<and>
        shape w' (nextHandle w) = Source s (s + d) \<and> nextStartTimeRef w' = s + d \<and>
        nextHandle w' = Suc (nextHandle w))"

definition tracked_ok :: "world \<Rightarrow> bool" where
  "tracked_ok w \<longleftrightarrow>
     gapless w \<and>
     (\<forall>h \<in> set (sourcesRef w). h < nextHandle w \<and> (\<exists>a b. shape w h = Source a b))"

section \<open>The wire text encoding loses nothing\<close>

lemma b64_encode_sextets:
  "b64_encode bs = map sextet_char (b64_sextets bs) @ replicate ((3 - length bs mod 3) mod 3) b64_pad"
  by (induction bs rule: b64_encode.induct) (simp_all add: mod_Suc numeral_2_eq_2)

lemma b64_sextets_bound:
  "\<forall>b \<in> set bs. b < 256 \<Longrightarrow> \<forall>x \<in> set (b64_sextets bs). x < 64"
  by (induction bs rule: b64_sextets.induct) auto

lemma b64_decode_sextets:
  "\<forall>b \<in> set bs. b < 256 \<Longrightarrow> b64_decode (b64_sextets bs) = bs"
  by (induction bs rule: b64_sextets.induct) auto

lemma length_b64_sextets: "length (b64_sextets bs) mod 4 \<noteq> 1"
  by (induction bs rule: b64_sextets.induct) (simp_all add: mod_Suc)

lemma encode_loop_map: "encode_loop bytes binary = binary @ map ucast bytes"
  by (induction bytes arbitrary: binary) simp_all

lemma decode_loop_map: "decode_loop s bytes = bytes @ map ucast s"
  by (induction s arbitrary: bytes) simp_all

lemma index_of_nth: "distinct xs \<Longrightarrow> n < length xs \<Longrightarrow> index_of (xs ! n) xs = Some n"
proof (induction xs arbitrary: n)
  case Nil
  then show ?case by simp
next
  case (Cons x xs)
  then show ?case by (cases n) auto
qed

lemma length_b64_alphabet: "length b64_alphabet = 64"
  by (simp add: b64_alphabet_def js_def)

lemma distinct_b64_alphabet: "distinct b64_alphabet"
  by (simp add: b64_alphabet_def js_def)

lemma char_sextet_char: "n < 64 \<Longrightarrow> char_sextet (sextet_char n) = Some n"
  by (simp add: char_sextet_def sextet_char_def index_of_nth distinct_b64_alphabet length_b64_alphabet)

lemma sextet_char_in: "n < 64 \<Longrightarrow> sextet_char n \<in> set b64_alphabet"
  by (simp add: sextet_char_def length_b64_alphabet)

lemma pad_notin: "b64_pad \<notin> set b64_alphabet"
  by (simp add: b64_alphabet_def js_def b64_pad_def)

lemma ws_notin: "u \<in> set b64_alphabet \<Longrightarrow> \<not> ascii_whitespace u"
  by (auto simp add: b64_alphabet_def js_def ascii_whitespace_def)

lemma ws_pad: "\<not> ascii_whitespace b64_pad"
  by (simp add: ascii_whitespace_def b64_pad_def)

lemma length_b64_encode: "length (b64_encode bs) mod 4 = 0"
  by (induction bs rule: b64_encode.induct) simp_all

lemma strip_padding_append:
  assumes "length (cs @ replicate k b64_pad) mod 4 = 0" and "k \<le> 2" and "b64_pad \<notin> set cs"
  shows "strip_padding (cs @ replicate k b64_pad) = cs"
proof -
  consider "k = 0" | "k = 1" | "k = 2" using assms(2) by linarith
  then show ?thesis
  proof cases
    case 1
    show ?thesis
    proof (cases "rev cs")
      case Nil
      with 1 show ?thesis by (simp add: strip_padding_def)
    next
      case (Cons p r)
      then have "p \<in> set cs" by (metis list.set_intros(1) set_rev)
      with assms(3) have "p \<noteq> b64_pad" by auto
      with 1 Cons show ?thesis by (simp add: strip_padding_def split: list.splits)
    qed
  next
    case 2
    from assms(1) 2 have "cs \<noteq> []" by auto
    then obtain q r where qr: "rev cs = q # r" by (cases "rev cs") auto
    then have "q \<in> set cs" by (metis list.set_intros(1) set_rev)
    with assms(3) have "q \<noteq> b64_pad" by auto
    moreover from qr have "cs = rev (q # r)" by (metis rev_rev_ident)
    ultimately show ?thesis using 2 qr assms(1) by (simp add: strip_padding_def)
  next
    case 3
    then show ?thesis using assms(1) by (simp add: strip_padding_def numeral_2_eq_2)
  qed
qed

lemma those_char_sextet:
  "\<forall>x \<in> set xs. x < 64 \<Longrightarrow> those (map char_sextet (map sextet_char xs)) = Some xs"
  by (induction xs) (simp_all add: char_sextet_char)

lemma atob_b64_encode:
  assumes "\<forall>b \<in> set bs. b < 256"
  shows "atob (b64_encode bs) = Inr (map of_nat bs)"
proof -
  let ?cs = "map sextet_char (b64_sextets bs)"
  let ?k = "(3 - length bs mod 3) mod 3"
  have bound: "\<forall>x \<in> set (b64_sextets bs). x < 64"
    using assms by (rule b64_sextets_bound)
  have enc: "b64_encode bs = ?cs @ replicate ?k b64_pad"
    by (rule b64_encode_sextets)
  have in_alpha: "set ?cs \<subseteq> set b64_alphabet"
    using bound by (auto simp: sextet_char_in)
  have nopad: "b64_pad \<notin> set ?cs"
    using in_alpha pad_notin by blast
  have nows: "\<forall>u \<in> set (b64_encode bs). \<not> ascii_whitespace u"
    unfolding enc using in_alpha ws_notin ws_pad by auto
  have filt: "filter (\<lambda>u. \<not> ascii_whitespace u) (b64_encode bs) = b64_encode bs"
    using nows by (simp add: filter_id_conv)
  have len: "length (?cs @ replicate ?k b64_pad) mod 4 = 0"
    using length_b64_encode [of bs] unfolding enc .
  have k2: "?k \<le> 2" by arith
  have strip: "strip_padding (b64_encode bs) = ?cs"
    unfolding enc using len k2 nopad by (rule strip_padding_append)
  have l1: "length ?cs mod 4 \<noteq> 1"
    using length_b64_sextets [of bs] by simp
  have th: "those (map char_sextet ?cs) = Some (b64_sextets bs)"
    using bound by (rule those_char_sextet)
  show ?thesis
    unfolding atob_def filt strip Let_def using l1 th
    by (simp add: b64_decode_sextets [OF assms])
qed

lemma unat_byte_less: "unat (b :: byte) < 256"
  using unsigned_less [of b, where ?'a = nat] by simp

lemma unat_ucast_byte: "unat (ucast (b :: byte) :: code_unit) = unat b"
  using unat_byte_less [of b] by (simp add: unsigned_ucast_eq take_bit_nat_eq_self)

lemma ucast_byte_roundtrip: "(ucast (ucast (b :: byte) :: code_unit) :: byte) = b"
  by (simp add: ucast_up_ucast_id is_up)

lemma btoa_bytes: "btoa (map ucast (bytes :: byte list)) = Inr (b64_encode (map unat bytes))"
proof -
  have latin1: "\<not> (\<exists>u \<in> set (map ucast bytes :: jsstring). 255 < unat u)"
  proof
    assume "\<exists>u \<in> set (map ucast bytes :: jsstring). 255 < unat u"
    then obtain b :: byte where "255 < unat (ucast b :: code_unit)" by auto
    with unat_byte_less [of b] show False by (simp add: unat_ucast_byte)
  qed
  have same: "map unat (map ucast bytes :: jsstring) = map unat bytes"
    by (induction bytes) (simp_all add: unat_ucast_byte)
  show ?thesis
    unfolding btoa_def same using latin1 by (simp only: if_False)
qed

lemma encode_total: "encode bytes = Inr (b64_encode (map unat bytes))"
  by (simp add: encode_def encode_loop_map btoa_bytes)

lemma decode_encode_bytes:
  "encode bytes = Inr s \<Longrightarrow> decode s = Inr bytes"
proof -
  assume "encode bytes = Inr s"
  then have s: "s = b64_encode (map unat bytes)" by (simp add: encode_total)
  have small: "\<forall>b \<in> set (map unat bytes). b < 256"
    using unat_byte_less by auto
  have "map ucast (map of_nat (map unat bytes) :: jsstring) = bytes"
    by (simp add: map_idI ucast_byte_roundtrip o_def)
  then show ?thesis
    unfolding s decode_def by (simp add: atob_b64_encode [OF small] decode_loop_map)
qed

text \<open>
  C10. \<^verbatim>\<open>encode\<close> never fails on a byte array, and \<^verbatim>\<open>decode\<close> gives the byte array
  back from the text \<^verbatim>\<open>encode\<close> made of it: the two helpers are inverse to each other on
  every byte array.
\<close>

theorem decode_encode: "\<exists>s. encode bytes = Inr s \<and> decode s = Inr bytes"
  using decode_encode_bytes [of bytes] by (simp add: encode_total)

section \<open>Samples through the encoder and the decoder\<close>

lemma int16_bytes_word: "ucast (ucast w :: byte) OR push_bit 8 (ucast (ucast (drop_bit 8 w) :: byte)) = (w :: 16 word)"
  by (rule bit_word_eqI) (auto simp: bit_simps)

lemma int16_of_bytes_of_int16: "int16_of_bytes (bytes_of_int16 ws) = ws"
  by (induction ws) (simp_all add: int16_bytes_word)

lemma length_bytes_of_int16: "length (bytes_of_int16 ws) = 2 * length ws"
  by (induction ws) simp_all

lemma int16_loop_map: "int16_loop dat acc = acc @ map (\<lambda>x. ToInt16 (times_float x 32768)) dat"
  by (induction dat arbitrary: acc) simp_all

lemma js_trunc_near: "\<bar>real_of_int (js_trunc y) - y\<bar> < 1"
  unfolding js_trunc_def by (cases "0 \<le> y"; simp; linarith)

lemma js_trunc_range: "-32768 \<le> y \<Longrightarrow> y < 32768 \<Longrightarrow> -32768 \<le> js_trunc y \<and> js_trunc y \<le> 32767"
  unfolding js_trunc_def by (cases "0 \<le> y"; simp; linarith)

lemma sint_int16: "-32768 \<le> t \<Longrightarrow> t \<le> 32767 \<Longrightarrow> sint (word_of_int t :: 16 word) = t"
  by (simp add: signed_of_int signed_take_bit_int_eq_self)

lemma map_nth_upt: "map (\<lambda>i. g (ws ! i)) [0..<length ws] = map g ws"
proof -
  have "map (\<lambda>i. g (ws ! i)) [0..<length ws] = map g (map ((!) ws) [0..<length ws])"
    by (simp add: o_def)
  then show ?thesis by (simp only: map_nth)
qed

lemma createBlob_total:
  "createBlob samples =
     Inr \<lparr>data = b64_encode (map unat (bytes_of_int16 (map (\<lambda>x. ToInt16 (times_float x 32768)) samples))),
          mimeType = js ''audio/pcm;rate=16000''\<rparr>"
  by (simp add: createBlob_def int16_loop_map encode_total)

lemma decodeAudioData_int16:
  "ws \<noteq> [] \<Longrightarrow>
   decodeAudioData (bytes_of_int16 ws) rate 1 =
     Inr \<lparr>numberOfChannels = 1, sampleRate = rate,
          channelData = [map (\<lambda>w. real_of_int (sint w) / 32768) ws]\<rparr>"
proof -
  assume ne: "ws \<noteq> []"
  have m: "map (\<lambda>i. real_of_int (sint (ws ! i)) / 32768) [0..<length ws] =
           map (\<lambda>w. real_of_int (sint w) / 32768) ws"
    by (rule map_nth_upt)
  show ?thesis
    unfolding decodeAudioData_def Let_def int16_of_bytes_of_int16
    using ne m by (simp add: length_bytes_of_int16)
qed

lemma roundtrip_eq:
  assumes "samples \<noteq> []"
  shows "roundtrip samples =
           Inr (map (\<lambda>x. real_of_int (sint (ToInt16 (times_float x 32768))) / 32768) samples)"
proof -
  let ?ws = "map (\<lambda>x. ToInt16 (times_float x 32768)) samples"
  have enc: "encode (bytes_of_int16 ?ws) = Inr (b64_encode (map unat (bytes_of_int16 ?ws)))"
    by (rule encode_total)
  have dec: "decode (b64_encode (map unat (bytes_of_int16 ?ws))) = Inr (bytes_of_int16 ?ws)"
    using enc by (rule decode_encode_bytes)
  have ne: "?ws \<noteq> []" using assms by simp
  show ?thesis
    unfolding roundtrip_def createBlob_total
    by (simp add: dec decodeAudioData_int16 [OF ne, unfolded One_nat_def] o_def)
qed

lemma sample_in_range:
  assumes "-1 \<le> x" and "x < 1"
  shows "\<bar>real_of_int (sint (word_of_int (js_trunc (x * 32768)) :: 16 word)) / 32768 - x\<bar> < 1 / 32768"
proof -
  let ?t = "js_trunc (x * 32768)"
  have r: "-32768 \<le> ?t \<and> ?t \<le> 32767"
    using assms by (intro js_trunc_range) simp_all
  then have s: "sint (word_of_int ?t :: 16 word) = ?t"
    by (simp add: sint_int16)
  have "\<bar>real_of_int ?t - x * 32768\<bar> < 1" by (rule js_trunc_near)
  then show ?thesis unfolding s by (simp add: field_simps abs_less_iff)
qed

lemma sample_one: "real_of_int (sint (word_of_int (js_trunc (1 * 32768)) :: 16 word)) / 32768 = -1"
  by (simp add: js_trunc_def)

text \<open>
  C1, as the code has it. A frame that is sent out and read back comes back sample by
  sample. A finite sample \<open>x\<close> comes back as the 16-bit two's complement reading of
  \<open>x * 32768\<close> truncated towards zero, divided by \<open>32768\<close>: nothing clamps. For
  \<open>-1 \<le> x < 1\<close> that is less than one quantization step \<open>1 / 32768\<close> away from
  \<open>x\<close>; the sample \<open>1\<close> itself wraps and comes back as \<open>-1\<close>.
\<close>

theorem pcm_roundtrip:
  assumes "samples \<noteq> []"
  shows "\<exists>out. roundtrip samples = Inr out \<and> length out = length samples \<and>
           (\<forall>i < length samples. \<forall>x. samples ! i = Num x \<longrightarrow>
              out ! i = real_of_int (sint (word_of_int (js_trunc (x * 32768)) :: 16 word)) / 32768 \<and>
              (-1 \<le> x \<and> x < 1 \<longrightarrow> \<bar>out ! i - x\<bar> < 1 / 32768) \<and>
              (x = 1 \<longrightarrow> out ! i = -1))"
proof -
  let ?out = "map (\<lambda>x. real_of_int (sint (ToInt16 (times_float x 32768))) / 32768) samples"
  have "roundtrip samples = Inr ?out" using assms by (rule roundtrip_eq)
  moreover have "length ?out = length samples" by simp
  moreover have "\<forall>i < length samples. \<forall>x. samples ! i = Num x \<longrightarrow>
              ?out ! i = real_of_int (sint (word_of_int (js_trunc (x * 32768)) :: 16 word)) / 32768 \<and>
              (-1 \<le> x \<and> x < 1 \<longrightarrow> \<bar>?out ! i - x\<bar> < 1 / 32768) \<and>
              (x = 1 \<longrightarrow> ?out ! i = -1)"
    using sample_in_range sample_one by auto
  ultimately show ?thesis by blast
qed

theorem pcm_roundtrip_witness:
  "\<exists>out. roundtrip [Num (1 / 2), Num 1, Num (- 3 / 2)] = Inr out \<and> length out = 3 \<and>
         out ! 0 = 1 / 2 \<and> out ! 1 = - 1 \<and> out ! 2 = 1 / 2"
proof -
  obtain out where o: "roundtrip [Num (1 / 2), Num 1, Num (- 3 / 2)] = Inr out"
    and l: "length out = 3"
    and a: "\<forall>i < 3. \<forall>x. [Num (1 / 2), Num 1, Num (- 3 / 2)] ! i = Num x \<longrightarrow>
              out ! i = real_of_int (sint (word_of_int (js_trunc (x * 32768)) :: 16 word)) / 32768 \<and>
              (-1 \<le> x \<and> x < 1 \<longrightarrow> \<bar>out ! i - x\<bar> < 1 / 32768) \<and>
              (x = 1 \<longrightarrow> out ! i = -1)"
    using pcm_roundtrip [of "[Num (1 / 2), Num 1, Num (- 3 / 2)]"] by auto
  have a0: "out ! 0 = 1 / 2"
    using a [rule_format, of 0 "1 / 2"] by (simp add: js_trunc_def)
  have a1: "out ! 1 = - 1"
    using a [rule_format, of 1 1] by simp
  have a2: "out ! 2 = 1 / 2"
    using a [rule_format, of 2 "- 3 / 2"] by (simp add: js_trunc_def)
  from o l a0 a1 a2 show ?thesis by blast
qed

theorem pcm_roundtrip_counterexample:
  "roundtrip [Num 1] = Inr [- 1] \<and> \<not> \<bar>(- 1 :: real) - 1\<bar> \<le> 1 / 32768"
  by (simp add: roundtrip_eq js_trunc_def)

section \<open>What each operation leaves alone\<close>

lemma update_obj_fields [simp]:
  "isSessionActive (update_obj h f w) = isSessionActive w"
  "error (update_obj h f w) = error w"
  "transcripts (update_obj h f w) = transcripts w"
  "currentInput (update_obj h f w) = currentInput w"
  "currentOutput (update_obj h f w) = currentOutput w"
  "sessionPromiseRef (update_obj h f w) = sessionPromiseRef w"
  "mediaStreamRef (update_obj h f w) = mediaStreamRef w"
  "inputAudioContextRef (update_obj h f w) = inputAudioContextRef w"
  "outputAudioContextRef (update_obj h f w) = outputAudioContextRef w"
  "scriptProcessorRef (update_obj h f w) = scriptProcessorRef w"
  "mediaStreamSourceRef (update_obj h f w) = mediaStreamSourceRef w"
  "nextStartTimeRef (update_obj h f w) = nextStartTimeRef w"
  "sourcesRef (update_obj h f w) = sourcesRef w"
  "nextHandle (update_obj h f w) = nextHandle w"
  "uncaught (update_obj h f w) = uncaught w"
  by (simp_all add: update_obj_def split: option.splits)

lemma heap_update_obj:
  "heap (update_obj h f w) k = (if k = h then map_option f (heap w h) else heap w k)"
  by (simp add: update_obj_def split: option.splits)

lemma run_reaction_fields [simp]:
  "isSessionActive (run_reaction s r w) = isSessionActive w"
  "error (run_reaction s r w) = error w"
  "transcripts (run_reaction s r w) = transcripts w"
  "currentInput (run_reaction s r w) = currentInput w"
  "currentOutput (run_reaction s r w) = currentOutput w"
  "sessionPromiseRef (run_reaction s r w) = sessionPromiseRef w"
  "mediaStreamRef (run_reaction s r w) = mediaStreamRef w"
  "inputAudioContextRef (run_reaction s r w) = inputAudioContextRef w"
  "outputAudioContextRef (run_reaction s r w) = outputAudioContextRef w"
  "scriptProcessorRef (run_reaction s r w) = scriptProcessorRef w"
  "mediaStreamSourceRef (run_reaction s r w) = mediaStreamSourceRef w"
  "nextStartTimeRef (run_reaction s r w) = nextStartTimeRef w"
  "sourcesRef (run_reaction s r w) = sourcesRef w"
  "nextHandle (run_reaction s r w) = nextHandle w"
  by (cases r; simp split: option.splits obj.splits)+

lemma promise_then_fields [simp]:
  "isSessionActive (promise_then p r w) = isSessionActive w"
  "error (promise_then p r w) = error w"
  "transcripts (promise_then p r w) = transcripts w"
  "currentInput (promise_then p r w) = currentInput w"
  "currentOutput (promise_then p r w) = currentOutput w"
  "sessionPromiseRef (promise_then p r w) = sessionPromiseRef w"
  "mediaStreamRef (promise_then p r w) = mediaStreamRef w"
  "inputAudioContextRef (promise_then p r w) = inputAudioContextRef w"
  "outputAudioContextRef (promise_then p r w) = outputAudioContextRef w"
  "scriptProcessorRef (promise_then p r w) = scriptProcessorRef w"
  "mediaStreamSourceRef (promise_then p r w) = mediaStreamSourceRef w"
  "nextStartTimeRef (promise_then p r w) = nextStartTimeRef w"
  "sourcesRef (promise_then p r w) = sourcesRef w"
  "nextHandle (promise_then p r w) = nextHandle w"
  by (simp_all add: promise_then_def split: option.splits obj.splits promise_state.splits)

lemma stop_all_fields [simp]:
  "isSessionActive (stop_all hs w) = isSessionActive w"
  "error (stop_all hs w) = error w"
  "transcripts (stop_all hs w) = transcripts w"
  "currentInput (stop_all hs w) = currentInput w"
  "currentOutput (stop_all hs w) = currentOutput w"
  "sessionPromiseRef (stop_all hs w) = sessionPromiseRef w"
  "mediaStreamRef (stop_all hs w) = mediaStreamRef w"
  "inputAudioContextRef (stop_all hs w) = inputAudioContextRef w"
  "outputAudioContextRef (stop_all hs w) = outputAudioContextRef w"
  "scriptProcessorRef (stop_all hs w) = scriptProcessorRef w"
  "mediaStreamSourceRef (stop_all hs w) = mediaStreamSourceRef w"
  "nextStartTimeRef (stop_all hs w) = nextStartTimeRef w"
  "sourcesRef (stop_all hs w) = sourcesRef w"
  "nextHandle (stop_all hs w) = nextHandle w"
  "uncaught (stop_all hs w) = uncaught w"
  by (induction hs arbitrary: w; simp)+

lemmas stop_defs =
  stopSession_def close_session_def release_stream_def release_processor_def
  release_source_def release_input_def release_output_def flush_playback_def

lemma released_stopSession: "released (stopSession w)"
  by (simp add: released_def stop_defs split: option.splits)

lemma stopSession_released:
  "released w \<Longrightarrow> stopSession w = w\<lparr>nextStartTimeRef := 0, isSessionActive := False\<rparr>"
  by (simp add: released_def stop_defs)

lemma stopSession_state:
  "nextStartTimeRef (stopSession w) = 0" "\<not> isSessionActive (stopSession w)"
  by (simp_all add: stop_defs split: option.splits)

text \<open>
  C6. \<^verbatim>\<open>stopSession\<close> is idempotent and safe before any start: a second call in a row
  changes nothing, a call in the initial state changes nothing, and after any call
  every ref is \<^verbatim>\<open>null\<close>, nothing is tracked, \<^verbatim>\<open>nextStartTimeRef\<close> is \<open>0\<close> and the session
  is inactive. \<^verbatim>\<open>stopSession\<close> has no throwing statement: each call on a ref is behind
  \<^verbatim>\<open>?.\<close>, and the results of \<^verbatim>\<open>then\<close> and \<^verbatim>\<open>close\<close> are dropped.
\<close>

theorem stopSession_idempotent:
  "stopSession (stopSession w) = stopSession w \<and>
   stopSession initial_world = initial_world \<and>
   sessionPromiseRef (stopSession w) = None \<and> mediaStreamRef (stopSession w) = None \<and>
   scriptProcessorRef (stopSession w) = None \<and> mediaStreamSourceRef (stopSession w) = None \<and>
   inputAudioContextRef (stopSession w) = None \<and> outputAudioContextRef (stopSession w) = None \<and>
   sourcesRef (stopSession w) = [] \<and> nextStartTimeRef (stopSession w) = 0 \<and>
   \<not> isSessionActive (stopSession w)"
proof -
  have r: "released (stopSession w)" by (rule released_stopSession)
  have "stopSession (stopSession w) = stopSession w"
    using stopSession_released [OF r] stopSession_state [of w] by simp
  moreover have "stopSession initial_world = initial_world"
    by (simp add: stopSession_released released_def initial_world_def)
  ultimately show ?thesis
    using r stopSession_state [of w] by (simp add: released_def)
qed

section \<open>Playback\<close>

lemma heap_stop_all:
  "heap (stop_all hs w) k = (if k \<in> set hs then map_option source_stop (heap w k) else heap w k)"
proof (induction hs arbitrary: w)
  case Nil
  then show ?case by simp
next
  case (Cons h hs)
  have idem: "\<And>x. map_option source_stop (map_option source_stop x) = map_option source_stop x"
  proof -
    fix x :: "obj option"
    show "map_option source_stop (map_option source_stop x) = map_option source_stop x"
    proof (cases x)
      case None then show ?thesis by simp
    next
      case (Some ob) then show ?thesis by (cases ob) simp_all
    qed
  qed
  show ?case by (simp add: Cons.IH heap_update_obj idem)
qed

lemma is_playing_source_stop: "\<not> is_playing (map_option source_stop x)"
proof (cases x)
  case None then show ?thesis by simp
next
  case (Some ob) then show ?thesis by (cases ob) simp_all
qed

lemma source_stop_other: "\<not> is_source ob \<Longrightarrow> source_stop ob = ob"
  by (cases ob) simp_all

lemma playing_flush:
  "playing (flush_playback w) h \<longleftrightarrow> playing w h \<and> h \<notin> set (sourcesRef w)"
  by (simp add: playing_def flush_playback_def heap_stop_all is_playing_source_stop)

lemma flush_fields [simp]:
  "sourcesRef (flush_playback w) = []"
  "nextStartTimeRef (flush_playback w) = 0"
  "nextHandle (flush_playback w) = nextHandle w"
  "sessionPromiseRef (flush_playback w) = sessionPromiseRef w"
  "mediaStreamRef (flush_playback w) = mediaStreamRef w"
  "inputAudioContextRef (flush_playback w) = inputAudioContextRef w"
  "outputAudioContextRef (flush_playback w) = outputAudioContextRef w"
  "scriptProcessorRef (flush_playback w) = scriptProcessorRef w"
  "mediaStreamSourceRef (flush_playback w) = mediaStreamSourceRef w"
  "isSessionActive (flush_playback w) = isSessionActive w"
  "error (flush_playback w) = error w"
  "transcripts (flush_playback w) = transcripts w"
  "currentInput (flush_playback w) = currentInput w"
  "currentOutput (flush_playback w) = currentOutput w"
  "uncaught (flush_playback w) = uncaught w"
  by (simp_all add: flush_playback_def)

lemma heap_flush:
  "heap (flush_playback w) k =
     (if k \<in> set (sourcesRef w) then map_option source_stop (heap w k) else heap w k)"
  by (simp add: flush_playback_def heap_stop_all)

text \<open>What the playback block does when it schedules a buffer.\<close>

lemma handle_audio_cases:
  assumes "handle_audio now m w = Inr v"
  shows "(\<not> has_audio m \<and> v = w) \<or>
         (has_audio m \<and> (\<exists>buffer.
            0 \<le> max (nextStartTimeRef w) now \<and>
            v = w\<lparr>heap := (heap w)(nextHandle w \<mapsto>
                            BufferSourceNode buffer (max (nextStartTimeRef w) now) False),
                   nextHandle := Suc (nextHandle w),
                   nextStartTimeRef := max (nextStartTimeRef w) now + duration buffer,
                   sourcesRef := (if nextHandle w \<in> set (sourcesRef w) then sourcesRef w
                                  else sourcesRef w @ [nextHandle w])\<rparr>))"
  using assms
  by (auto simp: handle_audio_def has_audio_def alloc_def Let_def
      split: sum.splits option.splits if_splits)

lemma handle_transcriptions_fields [simp]:
  "sourcesRef (handle_transcriptions cin cout m w) = sourcesRef w"
  "nextStartTimeRef (handle_transcriptions cin cout m w) = nextStartTimeRef w"
  "heap (handle_transcriptions cin cout m w) = heap w"
  "nextHandle (handle_transcriptions cin cout m w) = nextHandle w"
  "sessionPromiseRef (handle_transcriptions cin cout m w) = sessionPromiseRef w"
  "mediaStreamRef (handle_transcriptions cin cout m w) = mediaStreamRef w"
  "inputAudioContextRef (handle_transcriptions cin cout m w) = inputAudioContextRef w"
  "outputAudioContextRef (handle_transcriptions cin cout m w) = outputAudioContextRef w"
  "scriptProcessorRef (handle_transcriptions cin cout m w) = scriptProcessorRef w"
  "mediaStreamSourceRef (handle_transcriptions cin cout m w) = mediaStreamSourceRef w"
  "isSessionActive (handle_transcriptions cin cout m w) = isSessionActive w"
  "error (handle_transcriptions cin cout m w) = error w"
  "uncaught (handle_transcriptions cin cout m w) = uncaught w"
  by (simp_all add: handle_transcriptions_def Let_def split: option.splits)

lemma playing_transcriptions [simp]:
  "playing (handle_transcriptions cin cout m w) h = playing w h"
  by (simp add: playing_def)

lemma onmessage_interrupted:
  assumes "is_interrupted m" and "onmessage cin cout now m w = Inr w'"
  obtains v where "handle_audio now m w = Inr v"
    and "w' = handle_transcriptions cin cout m (flush_playback v)"
  using assms by (auto simp: onmessage_def handle_interrupted_def split: sum.splits)

lemma handle_audio_tracked:
  assumes "handle_audio now m w = Inr v"
  shows "set (sourcesRef w) \<subseteq> set (sourcesRef v)"
  using handle_audio_cases [OF assms] by auto

lemma handle_audio_playing:
  assumes "handle_audio now m w = Inr v" and "playing v h" and "h \<notin> set (sourcesRef v)"
  shows "playing w h"
  using handle_audio_cases [OF assms(1)] assms(2,3)
  by (auto simp: playing_def split: if_splits)

lemma handle_audio_no_audio: "audioData_of m = Inr None \<Longrightarrow> handle_audio now m w = Inr w"
  by (simp add: handle_audio_def)

lemma schedule_from_zero:
  assumes "nextStartTimeRef w = 0" and "0 \<le> now" and "has_audio m"
    and "handle_audio now m w = Inr v" and "sourcesRef w = []"
  shows "sourcesRef v = [nextHandle w] \<and>
         (\<exists>buffer. heap v (nextHandle w) = Some (BufferSourceNode buffer now False))"
  using handle_audio_cases [OF assms(4)] assms(1,2,3,5) by auto

text \<open>
  An interrupting message is always handled when it carries no audio, and whenever its
  handler runs to the end: nothing is tracked afterwards, every source that was tracked
  is stopped, nothing plays that did not play before, \<^verbatim>\<open>nextStartTimeRef\<close> is \<open>0\<close>, and
  the next buffer that is scheduled, at a clock reading \<open>now' \<ge> 0\<close>, starts at \<open>now'\<close>.
\<close>

lemma interrupted_flushes_completed:
  assumes "is_interrupted m"
  shows "(audioData_of m = Inr None \<longrightarrow> (\<exists>w'. onmessage cin cout now m w = Inr w')) \<and>
         (\<forall>w'. onmessage cin cout now m w = Inr w' \<longrightarrow>
            sourcesRef w' = [] \<and> nextStartTimeRef w' = 0 \<and>
            (\<forall>h \<in> set (sourcesRef w). \<not> playing w' h) \<and>
            (\<forall>h. playing w' h \<longrightarrow> playing w h) \<and>
            (\<forall>now' m' v. 0 \<le> now' \<longrightarrow> has_audio m' \<longrightarrow> handle_audio now' m' w' = Inr v \<longrightarrow>
               sourcesRef v = [nextHandle w'] \<and>
               (\<exists>buffer. heap v (nextHandle w') = Some (BufferSourceNode buffer now' False))))"
proof -
  have total: "audioData_of m = Inr None \<longrightarrow> (\<exists>w'. onmessage cin cout now m w = Inr w')"
    by (simp add: onmessage_def handle_audio_no_audio)
  have flushed: "sourcesRef w' = [] \<and> nextStartTimeRef w' = 0 \<and>
            (\<forall>h \<in> set (sourcesRef w). \<not> playing w' h) \<and>
            (\<forall>h. playing w' h \<longrightarrow> playing w h) \<and>
            (\<forall>now' m' v. 0 \<le> now' \<longrightarrow> has_audio m' \<longrightarrow> handle_audio now' m' w' = Inr v \<longrightarrow>
               sourcesRef v = [nextHandle w'] \<and>
               (\<exists>buffer. heap v (nextHandle w') = Some (BufferSourceNode buffer now' False)))"
    if r: "onmessage cin cout now m w = Inr w'" for w'
  proof -
    from assms r obtain v where v: "handle_audio now m w = Inr v"
      and w': "w' = handle_transcriptions cin cout m (flush_playback v)"
      by (rule onmessage_interrupted)
    have 1: "sourcesRef w' = []" by (simp add: w')
    have 2: "nextStartTimeRef w' = 0" by (simp add: w')
    have 3: "\<forall>h \<in> set (sourcesRef w). \<not> playing w' h"
      using handle_audio_tracked [OF v] by (auto simp: w' playing_flush)
    have 4: "\<forall>h. playing w' h \<longrightarrow> playing w h"
    proof (intro allI impI)
      fix h assume "playing w' h"
      then have "playing v h" and "h \<notin> set (sourcesRef v)" by (simp_all add: w' playing_flush)
      then show "playing w h" using handle_audio_playing [OF v] by blast
    qed
    have 5: "\<forall>now' m' u. 0 \<le> now' \<longrightarrow> has_audio m' \<longrightarrow> handle_audio now' m' w' = Inr u \<longrightarrow>
               sourcesRef u = [nextHandle w'] \<and>
               (\<exists>buffer. heap u (nextHandle w') = Some (BufferSourceNode buffer now' False))"
      using schedule_from_zero [of w'] 1 2 by blast
    from 1 2 3 4 5 show ?thesis by blast
  qed
  from total flushed show ?thesis by blast
qed

section \<open>Capture\<close>

lemma createBlob_never_fails: "\<exists>b. createBlob samples = Inr b"
  by (simp add: createBlob_total)

lemma handle_audio_capture:
  assumes "handle_audio now m w = Inr v"
  shows "sessionPromiseRef v = sessionPromiseRef w \<and> mediaStreamRef v = mediaStreamRef w \<and>
         inputAudioContextRef v = inputAudioContextRef w \<and>
         mediaStreamSourceRef v = mediaStreamSourceRef w \<and>
         scriptProcessorRef v = scriptProcessorRef w \<and>
         (\<forall>h. h < nextHandle w \<longrightarrow> heap v h = heap w h)"
  using handle_audio_cases [OF assms] by auto

lemma handle_interrupted_others:
  "heap w h = Some ob \<Longrightarrow> \<not> is_source ob \<Longrightarrow> heap (handle_interrupted m w) h = Some ob"
  by (simp add: handle_interrupted_def heap_flush source_stop_other)

lemma handle_interrupted_only:
  "(handle_interrupted m w)\<lparr>sourcesRef := sourcesRef w, nextStartTimeRef := nextStartTimeRef w,
      heap := heap w\<rparr> = w"
  by (simp add: handle_interrupted_def flush_playback_def)

lemma handle_interrupted_refs [simp]:
  "sessionPromiseRef (handle_interrupted m w) = sessionPromiseRef w"
  "mediaStreamRef (handle_interrupted m w) = mediaStreamRef w"
  "inputAudioContextRef (handle_interrupted m w) = inputAudioContextRef w"
  "mediaStreamSourceRef (handle_interrupted m w) = mediaStreamSourceRef w"
  "scriptProcessorRef (handle_interrupted m w) = scriptProcessorRef w"
  "nextHandle (handle_interrupted m w) = nextHandle w"
  by (simp_all add: handle_interrupted_def)

lemma session_close_other: "\<not> is_session_object ob \<Longrightarrow> session_close ob = ob"
  by (cases ob) simp_all

lemma run_reaction_heap_others:
  "heap w h = Some ob \<Longrightarrow> \<not> is_session_object ob \<Longrightarrow> heap (run_reaction s r w) h = Some ob"
  by (cases r)
    (auto simp: update_obj_def session_close_other split: option.splits obj.splits)

lemma promise_then_heap_others:
  "heap w h = Some ob \<Longrightarrow> \<not> is_session_object ob \<Longrightarrow> heap (promise_then p r w) h = Some ob"
  by (auto simp: promise_then_def run_reaction_heap_others
      split: option.splits obj.splits promise_state.splits)

lemma promise_then_only:
  "(promise_then p r w)\<lparr>heap := heap w, uncaught := uncaught w\<rparr> = w"
  by (cases r)
    (auto simp: promise_then_def update_obj_def
      split: option.splits obj.splits promise_state.splits)

lemma run_reactions_append:
  "run_reactions s (q @ [r]) w = run_reaction s r (run_reactions s q w)"
  by (induction q arbitrary: w) simp_all

lemma resolve_after_then:
  assumes "heap w p = Some (SessionPromise (Pending q) stream cin cout)"
  shows "resolve p (w\<lparr>heap := (heap w)(p \<mapsto> SessionPromise (Pending (q @ [r])) stream cin cout)\<rparr>) =
         run_reaction (nextHandle w) r (resolve p w)"
proof -
  have h: "((heap w)(p \<mapsto> SessionPromise (Pending (q @ [r])) stream cin cout))
             (nextHandle w \<mapsto> Session False False [],
              p \<mapsto> SessionPromise (Fulfilled (nextHandle w)) stream cin cout) =
           (heap w)(nextHandle w \<mapsto> Session False False [],
              p \<mapsto> SessionPromise (Fulfilled (nextHandle w)) stream cin cout)"
    by (simp add: fun_eq_iff)
  show ?thesis
    by (simp add: resolve_def alloc_def assms run_reactions_append h)
qed

lemma refuse_after_then:
  assumes "heap w p = Some (SessionPromise (Pending q) stream cin cout)"
  shows "(refuse p (w\<lparr>heap := (heap w)(p \<mapsto> SessionPromise (Pending (q @ [r])) stream cin cout)\<rparr>))
           \<lparr>uncaught := uncaught (refuse p w)\<rparr> = refuse p w"
  by (simp add: refuse_def assms)

lemma run_reactions_sends:
  assumes "heap w s = Some (Session False False rc)" and "CloseSession \<notin> set q"
  shows "heap (run_reactions s q w) s =
         Some (Session False False (rc @ pending_sends (Pending q)))"
  using assms
proof (induction q arbitrary: w rc)
  case Nil
  then show ?case by simp
next
  case (Cons r q)
  then obtain b where r: "r = SendRealtimeInput b" by (cases r) auto
  have "heap (run_reaction s r w) s = Some (Session False False (rc @ [b]))"
    using Cons.prems(1) by (simp add: r)
  from Cons.IH [OF this] Cons.prems(2) show ?case by (simp add: r)
qed

lemma resolve_delivers:
  assumes "heap w p = Some (SessionPromise (Pending q) stream cin cout)"
    and "CloseSession \<notin> set q" and "p \<noteq> nextHandle w"
  shows "received_by (resolve p w) (nextHandle w) = pending_sends (Pending q)"
proof -
  let ?v = "w\<lparr>nextHandle := Suc (nextHandle w),
              heap := (heap w)(nextHandle w \<mapsto> Session False False [],
                 p \<mapsto> SessionPromise (Fulfilled (nextHandle w)) stream cin cout)\<rparr>"
  have "heap ?v (nextHandle w) = Some (Session False False [])"
    using assms(3) by simp
  from run_reactions_sends [OF this assms(2)]
  have "heap (run_reactions (nextHandle w) q ?v) (nextHandle w) =
      Some (Session False False (pending_sends (Pending q)))" by simp
  moreover have "resolve p w = run_reactions (nextHandle w) q ?v"
    by (simp add: resolve_def alloc_def assms(1))
  ultimately show ?thesis by (simp add: received_by_def)
qed

text \<open>
  C8, as the code has it. The capture callback never throws and never touches the
  capture graph: it returns normally in every state, changing at most the session
  objects and the count of unhandled rejections. With \<^verbatim>\<open>sessionPromiseRef\<close> at \<^verbatim>\<open>null\<close>
  the frame is dropped and nothing changes; on a closed session the chunk is dropped; a
  send that throws, or a rejected promise, leaves an unhandled rejection and nothing
  else; an open session accepts the chunk. While the promise is pending the chunk is
  not dropped: the send waits on the promise, behind what was registered before it.
  When the promise is resolved it runs on the new session, after the earlier callbacks,
  and the session receives what was waiting and then this chunk, unless a close was
  registered before it. When the promise is rejected the chunk is discarded, and but
  for the count of unhandled rejections the state is as if the frame had not arrived.
\<close>

theorem capture_callback_never_throws:
  "(\<exists>w'. onaudioprocess inputData w = Inr w' \<and>
        w'\<lparr>heap := heap w, uncaught := uncaught w\<rparr> = w \<and>
        (\<forall>h ob. heap w h = Some ob \<longrightarrow> \<not> is_session_object ob \<longrightarrow> heap w' h = Some ob)) \<and>
   (sessionPromiseRef w = None \<longrightarrow> onaudioprocess inputData w = Inr w) \<and>
   (\<forall>p s stream cin cout isClosed received.
      sessionPromiseRef w = Some p \<longrightarrow>
      heap w p = Some (SessionPromise (Fulfilled s) stream cin cout) \<longrightarrow>
      (heap w s = Some (Session isClosed True received) \<longrightarrow>
         onaudioprocess inputData w = Inr (w\<lparr>uncaught := Suc (uncaught w)\<rparr>)) \<and>
      (heap w s = Some (Session True False received) \<longrightarrow>
         onaudioprocess inputData w = Inr w)) \<and>
   (\<forall>p stream cin cout.
      sessionPromiseRef w = Some p \<longrightarrow>
      heap w p = Some (SessionPromise Rejected stream cin cout) \<longrightarrow>
      onaudioprocess inputData w = Inr (w\<lparr>uncaught := Suc (uncaught w)\<rparr>)) \<and>
   (\<forall>p s stream cin cout received.
      sessionPromiseRef w = Some p \<longrightarrow>
      heap w p = Some (SessionPromise (Fulfilled s) stream cin cout) \<longrightarrow>
      heap w s = Some (Session False False received) \<longrightarrow>
      (\<exists>b. createBlob inputData = Inr b \<and>
         onaudioprocess inputData w =
           Inr (w\<lparr>heap := (heap w)(s \<mapsto> Session False False (received @ [b]))\<rparr>))) \<and>
   (\<forall>p q stream cin cout.
      sessionPromiseRef w = Some p \<longrightarrow>
      heap w p = Some (SessionPromise (Pending q) stream cin cout) \<longrightarrow>
      (\<exists>b w'. createBlob inputData = Inr b \<and> onaudioprocess inputData w = Inr w' \<and>
         w' = w\<lparr>heap := (heap w)(p \<mapsto>
                 SessionPromise (Pending (q @ [SendRealtimeInput b])) stream cin cout)\<rparr> \<and>
         resolve p w' = run_reaction (nextHandle w) (SendRealtimeInput b) (resolve p w) \<and>
         (CloseSession \<notin> set q \<longrightarrow> p \<noteq> nextHandle w \<longrightarrow>
            received_by (resolve p w') (nextHandle w) = pending_sends (Pending q) @ [b]) \<and>
         (refuse p w')\<lparr>uncaught := uncaught (refuse p w)\<rparr> = refuse p w))"
proof -
  obtain b where b: "createBlob inputData = Inr b"
    using createBlob_never_fails by blast
  note others = promise_then_heap_others
  have 1: "\<exists>w'. onaudioprocess inputData w = Inr w' \<and>
        w'\<lparr>heap := heap w, uncaught := uncaught w\<rparr> = w \<and>
        (\<forall>h ob. heap w h = Some ob \<longrightarrow> \<not> is_session_object ob \<longrightarrow> heap w' h = Some ob)"
    by (cases "sessionPromiseRef w") (simp_all add: onaudioprocess_def b promise_then_only others)
  have 2: "sessionPromiseRef w = None \<longrightarrow> onaudioprocess inputData w = Inr w"
    by (simp add: onaudioprocess_def b)
  have 3: "\<forall>p s stream cin cout isClosed received.
      sessionPromiseRef w = Some p \<longrightarrow>
      heap w p = Some (SessionPromise (Fulfilled s) stream cin cout) \<longrightarrow>
      (heap w s = Some (Session isClosed True received) \<longrightarrow>
         onaudioprocess inputData w = Inr (w\<lparr>uncaught := Suc (uncaught w)\<rparr>)) \<and>
      (heap w s = Some (Session True False received) \<longrightarrow>
         onaudioprocess inputData w = Inr w)"
    by (simp add: onaudioprocess_def b promise_then_def)
  have 4: "\<forall>p stream cin cout.
      sessionPromiseRef w = Some p \<longrightarrow>
      heap w p = Some (SessionPromise Rejected stream cin cout) \<longrightarrow>
      onaudioprocess inputData w = Inr (w\<lparr>uncaught := Suc (uncaught w)\<rparr>)"
    by (simp add: onaudioprocess_def b promise_then_def)
  have 5: "\<forall>p s stream cin cout received.
      sessionPromiseRef w = Some p \<longrightarrow>
      heap w p = Some (SessionPromise (Fulfilled s) stream cin cout) \<longrightarrow>
      heap w s = Some (Session False False received) \<longrightarrow>
      (\<exists>b. createBlob inputData = Inr b \<and>
         onaudioprocess inputData w =
           Inr (w\<lparr>heap := (heap w)(s \<mapsto> Session False False (received @ [b]))\<rparr>))"
    by (simp add: onaudioprocess_def b promise_then_def)
  have 6: "\<exists>b w'. createBlob inputData = Inr b \<and> onaudioprocess inputData w = Inr w' \<and>
         w' = w\<lparr>heap := (heap w)(p \<mapsto>
                 SessionPromise (Pending (q @ [SendRealtimeInput b])) stream cin cout)\<rparr> \<and>
         resolve p w' = run_reaction (nextHandle w) (SendRealtimeInput b) (resolve p w) \<and>
         (CloseSession \<notin> set q \<longrightarrow> p \<noteq> nextHandle w \<longrightarrow>
            received_by (resolve p w') (nextHandle w) = pending_sends (Pending q) @ [b]) \<and>
         (refuse p w')\<lparr>uncaught := uncaught (refuse p w)\<rparr> = refuse p w"
    if r: "sessionPromiseRef w = Some p"
      and h: "heap w p = Some (SessionPromise (Pending q) stream cin cout)"
    for p q stream cin cout
  proof -
    let ?w' = "w\<lparr>heap := (heap w)(p \<mapsto>
                 SessionPromise (Pending (q @ [SendRealtimeInput b])) stream cin cout)\<rparr>"
    have res: "onaudioprocess inputData w = Inr ?w'"
      by (simp add: onaudioprocess_def b r h promise_then_def)
    have h': "heap ?w' p =
        Some (SessionPromise (Pending (q @ [SendRealtimeInput b])) stream cin cout)"
      by simp
    have delivered: "received_by (resolve p ?w') (nextHandle w) =
        pending_sends (Pending q) @ [b]"
      if "CloseSession \<notin> set q" and "p \<noteq> nextHandle w"
      using resolve_delivers [OF h'] that by simp
    from b res resolve_after_then [OF h] refuse_after_then [OF h] delivered
    show ?thesis by simp
  qed
  from 1 2 3 4 5 6 show ?thesis by blast
qed

section \<open>The example session\<close>

lemmas run_defs =
  onClick_def startSession_begin_def startSession_resume_def start_catch_def
  acquire_stream_def create_input_def create_output_def connect_def alloc_def
  onopen_def resolve_def refuse_def update_obj_def initial_world_def Let_def
  onmessage_def handle_interrupted_def handle_transcriptions_def onaudioprocess_def
  promise_then_def onerror_def onclose_def

lemma decode_silence: "decode (js ''AAAAAA=='') = Inr [0, 0, 0, 0]"
  by (simp add: decode_def atob_def js_def ascii_whitespace_def strip_padding_def b64_pad_def
      char_sextet_def b64_alphabet_def)

lemma decodeAudioData_silence:
  "decodeAudioData [0, 0, 0, 0] 24000 1 =
     Inr \<lparr>numberOfChannels = 1, sampleRate = 24000, channelData = [[0, 0]]\<rparr>"
  by (simp add: decodeAudioData_def upt_rec)

lemma open_world_eq:
  "open_world =
     \<lparr>isSessionActive = True, error = None, transcripts = [], currentInput = [],
      currentOutput = [], sessionPromiseRef = Some 4, mediaStreamRef = Some 1,
      inputAudioContextRef = Some 2, outputAudioContextRef = Some 3,
      scriptProcessorRef = Some 6, mediaStreamSourceRef = Some 5, nextStartTimeRef = 0,
      sourcesRef = [],
      heap = (\<lambda>h. None)(1 \<mapsto> MediaStream False, 2 \<mapsto> AudioContext 16000 False,
               3 \<mapsto> AudioContext 24000 False,
               4 \<mapsto> SessionPromise (Fulfilled 7) 1 [] [],
               5 \<mapsto> MediaStreamSourceNode 1 True, 6 \<mapsto> ScriptProcessorNode True,
               7 \<mapsto> Session False False []),
      nextHandle = 8, uncaught = 0\<rparr>"
  by (simp add: open_world_def run_defs fun_eq_iff)

lemma playing_world_eq:
  "playing_world =
     open_world\<lparr>nextStartTimeRef := 1 + 1 / 12000, sourcesRef := [8], nextHandle := 9,
       heap := (heap open_world)(8 \<mapsto>
          BufferSourceNode \<lparr>numberOfChannels = 1, sampleRate = 24000, channelData = [[0, 0]]\<rparr>
            1 False)\<rparr>"
proof -
  have ne: "js ''AAAAAA=='' \<noteq> []" by (simp add: js_def)
  show ?thesis
    by (simp add: playing_world_def open_world_eq onmessage_def handle_audio_def
        audio_message_def ne decode_silence decodeAudioData_silence [unfolded One_nat_def]
        alloc_def handle_interrupted_def handle_transcriptions_def duration_def Let_def
        fun_eq_iff)
qed

section \<open>The statements at the example session\<close>

lemma interrupt_message_simps [simp]:
  "is_interrupted interrupt_message" "audioData_of interrupt_message = Inr None"
  "\<not> has_audio interrupt_message"
  by (simp_all add: interrupt_message_def has_audio_def)

lemma createBlob_silence:
  "createBlob [Num 0] = Inr \<lparr>data = js ''AAA='', mimeType = js ''audio/pcm;rate=16000''\<rparr>"
  by (simp add: createBlob_total b64_encode.simps sextet_char_def b64_alphabet_def b64_pad_def
      js_def js_trunc_def)

lemma opening_world_eq:
  "opening_world =
     \<lparr>isSessionActive = True, error = None, transcripts = [], currentInput = [],
      currentOutput = [], sessionPromiseRef = Some 4, mediaStreamRef = Some 1,
      inputAudioContextRef = Some 2, outputAudioContextRef = Some 3,
      scriptProcessorRef = Some 6, mediaStreamSourceRef = Some 5, nextStartTimeRef = 0,
      sourcesRef = [],
      heap = (\<lambda>h. None)(1 \<mapsto> MediaStream False, 2 \<mapsto> AudioContext 16000 False,
               3 \<mapsto> AudioContext 24000 False,
               4 \<mapsto> SessionPromise (Pending []) 1 [] [],
               5 \<mapsto> MediaStreamSourceNode 1 True, 6 \<mapsto> ScriptProcessorNode True),
      nextHandle = 7, uncaught = 0\<rparr>"
  by (simp add: opening_world_def run_defs fun_eq_iff)

lemma orphan_world_eq: "orphan_world = open_world\<lparr>isSessionActive := False\<rparr>"
  by (simp add: orphan_world_def open_world_eq run_defs stop_defs fun_eq_iff)

lemma restarted_world_eq:
  "restarted_world =
     open_world\<lparr>sessionPromiseRef := Some 12, mediaStreamRef := Some 9,
       inputAudioContextRef := Some 10, outputAudioContextRef := Some 11,
       heap := (heap open_world)(9 \<mapsto> MediaStream False, 10 \<mapsto> AudioContext 16000 False,
                 11 \<mapsto> AudioContext 24000 False,
                 12 \<mapsto> SessionPromise (Pending []) 9 [] []),
       nextHandle := 13\<rparr>"
  by (simp add: restarted_world_def orphan_world_eq open_world_eq run_defs fun_eq_iff)

lemma restarted_stopped_world_eq:
  "restarted_stopped_world =
     initial_world\<lparr>
       heap := (heap open_world)(5 \<mapsto> MediaStreamSourceNode 1 False,
                 6 \<mapsto> ScriptProcessorNode False,
                 9 \<mapsto> MediaStream True, 10 \<mapsto> AudioContext 16000 True,
                 11 \<mapsto> AudioContext 24000 True,
                 12 \<mapsto> SessionPromise (Pending [CloseSession]) 9 [] []),
       nextHandle := 13\<rparr>"
  by (simp add: restarted_stopped_world_def restarted_world_eq open_world_eq run_defs stop_defs
      fun_eq_iff)

lemma createBlob_silent_chunk: "createBlob [Num 0] = Inr silent_chunk"
  by (simp add: createBlob_silence silent_chunk_def)

lemma text_interrupt_message_simps [simp]:
  "is_interrupted text_interrupt_message" "audioData_of text_interrupt_message = Inl TypeError"
  by (simp_all add: text_interrupt_message_def)

text \<open>
  C3, at an input where the code departs from it. In the example session one source,
  object 8, is tracked and playing, and \<^verbatim>\<open>nextStartTimeRef\<close> is \<open>1 + 1/12000\<close>. A message
  with \<^verbatim>\<open>interrupted\<close> set whose first part is a text part makes the handler throw
  \<^verbatim>\<open>TypeError\<close> where it reads \<^verbatim>\<open>inlineData.data\<close>, before the interrupt block is
  reached: the source stays tracked and goes on playing, and \<^verbatim>\<open>nextStartTimeRef\<close> is
  kept. The same signal in a message without the part flushes the playback.
\<close>

theorem interrupt_lost_with_text_part:
  "is_interrupted text_interrupt_message \<and>
   sourcesRef playing_world = [8] \<and> playing playing_world 8 \<and>
   nextStartTimeRef playing_world = 1 + 1 / 12000 \<and>
   onmessage [] [] 2 text_interrupt_message playing_world = Inl (TypeError, playing_world) \<and>
   step (OnMessage 4 2 text_interrupt_message) playing_world = playing_world\<lparr>uncaught := 1\<rparr> \<and>
   sourcesRef (step (OnMessage 4 2 text_interrupt_message) playing_world) = [8] \<and>
   playing (step (OnMessage 4 2 text_interrupt_message) playing_world) 8 \<and>
   nextStartTimeRef (step (OnMessage 4 2 text_interrupt_message) playing_world) = 1 + 1 / 12000 \<and>
   sourcesRef (step (OnMessage 4 2 interrupt_message) playing_world) = [] \<and>
   \<not> playing (step (OnMessage 4 2 interrupt_message) playing_world) 8 \<and>
   nextStartTimeRef (step (OnMessage 4 2 interrupt_message) playing_world) = 0"
proof -
  have thrown: "onmessage [] [] 2 text_interrupt_message playing_world =
      Inl (TypeError, playing_world)"
    by (simp add: onmessage_def handle_audio_def)
  have p4: "heap playing_world 4 = Some (SessionPromise (Fulfilled 7) 1 [] [])"
    by (simp add: playing_world_eq open_world_eq)
  have u: "uncaught playing_world = 0" by (simp add: playing_world_eq open_world_eq)
  have lost: "step (OnMessage 4 2 text_interrupt_message) playing_world =
      playing_world\<lparr>uncaught := 1\<rparr>"
    by (simp add: p4 thrown u)
  have before: "sourcesRef playing_world = [8]" "playing playing_world 8"
    "nextStartTimeRef playing_world = 1 + 1 / 12000"
    by (simp_all add: playing_world_eq playing_def)
  have flushed: "step (OnMessage 4 2 interrupt_message) playing_world =
      handle_transcriptions [] [] interrupt_message (flush_playback playing_world)"
    by (simp add: p4 onmessage_def handle_audio_no_audio handle_interrupted_def)
  have after: "sourcesRef (handle_transcriptions [] [] interrupt_message
        (flush_playback playing_world)) = []"
    "\<not> playing (handle_transcriptions [] [] interrupt_message
        (flush_playback playing_world)) 8"
    "nextStartTimeRef (handle_transcriptions [] [] interrupt_message
        (flush_playback playing_world)) = 0"
    by (simp_all add: playing_flush before)
  have kept: "playing (playing_world\<lparr>uncaught := 1\<rparr>) 8"
    using before(2) by (simp add: playing_def)
  show ?thesis unfolding lost flushed
    using thrown before after kept by simp
qed

theorem capture_callback_never_throws_witness:
  "onaudioprocess [Num 0] initial_world = Inr initial_world \<and>
   onaudioprocess [Num 0] (stopSession open_world) = Inr (stopSession open_world) \<and>
   onaudioprocess [Num 0] faulty_world = Inr (faulty_world\<lparr>uncaught := 1\<rparr>) \<and>
   heap (faulty_world\<lparr>uncaught := 1\<rparr>) 6 = Some (ScriptProcessorNode True) \<and>
   onaudioprocess [Num 0] (update_obj 7 session_close open_world) =
     Inr (update_obj 7 session_close open_world) \<and>
   onaudioprocess [Num 0] (step (Refused 4) opening_world) =
     Inr ((step (Refused 4) opening_world)\<lparr>uncaught := 2\<rparr>) \<and>
   onaudioprocess [Num 0] open_world =
     Inr (open_world\<lparr>heap := (heap open_world)(7 \<mapsto> Session False False [silent_chunk])\<rparr>) \<and>
   onaudioprocess [Num 0] opening_world =
     Inr (opening_world\<lparr>heap := (heap opening_world)(4 \<mapsto>
            SessionPromise (Pending [SendRealtimeInput silent_chunk]) 1 [] [])\<rparr>) \<and>
   resolve 4 (opening_world\<lparr>heap := (heap opening_world)(4 \<mapsto>
            SessionPromise (Pending [SendRealtimeInput silent_chunk]) 1 [] [])\<rparr>) =
     run_reaction 7 (SendRealtimeInput silent_chunk) (resolve 4 opening_world) \<and>
   received_by (resolve 4 (opening_world\<lparr>heap := (heap opening_world)(4 \<mapsto>
            SessionPromise (Pending [SendRealtimeInput silent_chunk]) 1 [] [])\<rparr>)) 7 =
     [silent_chunk]"
proof -
  have 1: "onaudioprocess [Num 0] initial_world = Inr initial_world"
    using capture_callback_never_throws [where inputData = "[Num 0]" and w = initial_world]
    by (simp add: initial_world_def)
  have 2: "onaudioprocess [Num 0] (stopSession open_world) = Inr (stopSession open_world)"
    using capture_callback_never_throws [where inputData = "[Num 0]" and w = "stopSession open_world"]
      released_stopSession [of open_world, unfolded released_def] by simp
  have f: "faulty_world = open_world\<lparr>heap := (heap open_world)(7 \<mapsto> Session False True [])\<rparr>"
    by (simp add: faulty_world_def open_world_eq update_obj_def)
  have refs: "sessionPromiseRef faulty_world = Some 4"
    "heap faulty_world 4 = Some (SessionPromise (Fulfilled 7) 1 [] [])"
    "heap faulty_world 7 = Some (Session False True [])" "uncaught faulty_world = 0"
    by (simp_all add: f open_world_eq)
  note settled = capture_callback_never_throws [THEN conjunct2, THEN conjunct2, THEN conjunct1,
      rule_format]
  note thrown = settled [THEN conjunct1, rule_format]
  note dropped = settled [THEN conjunct2, rule_format]
  note rejected = capture_callback_never_throws [THEN conjunct2, THEN conjunct2, THEN conjunct2,
      THEN conjunct1, rule_format]
  note sent = capture_callback_never_throws [THEN conjunct2, THEN conjunct2, THEN conjunct2,
      THEN conjunct2, THEN conjunct1, rule_format]
  note queued = capture_callback_never_throws [THEN conjunct2, THEN conjunct2, THEN conjunct2,
      THEN conjunct2, THEN conjunct2, rule_format]
  from thrown [OF refs(1) refs(2) refs(3), of "[Num 0]"] refs(4)
  have 3: "onaudioprocess [Num 0] faulty_world = Inr (faulty_world\<lparr>uncaught := 1\<rparr>)"
    by simp
  have 4: "heap (faulty_world\<lparr>uncaught := 1\<rparr>) 6 = Some (ScriptProcessorNode True)"
    by (simp add: f open_world_eq)
  let ?c = "update_obj 7 session_close open_world"
  have c: "sessionPromiseRef ?c = Some 4"
    "heap ?c 4 = Some (SessionPromise (Fulfilled 7) 1 [] [])"
    "heap ?c 7 = Some (Session True False [])"
    by (simp_all add: open_world_eq update_obj_def)
  have 5: "onaudioprocess [Num 0] ?c = Inr ?c"
    by (rule dropped [OF c(1) c(2) c(3)])
  let ?r = "step (Refused 4) opening_world"
  have r: "sessionPromiseRef ?r = Some 4"
    "heap ?r 4 = Some (SessionPromise Rejected 1 [] [])" "uncaught ?r = 1"
    by (simp_all add: opening_world_eq refuse_def)
  from rejected [OF r(1) r(2), of "[Num 0]"] r(3)
  have 6: "onaudioprocess [Num 0] ?r = Inr (?r\<lparr>uncaught := 2\<rparr>)" by simp
  have o: "sessionPromiseRef open_world = Some 4"
    "heap open_world 4 = Some (SessionPromise (Fulfilled 7) 1 [] [])"
    "heap open_world 7 = Some (Session False False [])"
    by (simp_all add: open_world_eq)
  from sent [OF o(1) o(2) o(3), of "[Num 0]"]
  have 7: "onaudioprocess [Num 0] open_world =
      Inr (open_world\<lparr>heap := (heap open_world)(7 \<mapsto> Session False False [silent_chunk])\<rparr>)"
    by (auto simp: createBlob_silent_chunk)
  have p: "sessionPromiseRef opening_world = Some 4"
    "heap opening_world 4 = Some (SessionPromise (Pending []) 1 [] [])"
    by (simp_all add: opening_world_eq)
  have n: "nextHandle opening_world = 7" by (simp add: opening_world_eq)
  from queued [OF p(1) p(2), of "[Num 0]"] n
  have 8: "onaudioprocess [Num 0] opening_world =
      Inr (opening_world\<lparr>heap := (heap opening_world)(4 \<mapsto>
            SessionPromise (Pending [SendRealtimeInput silent_chunk]) 1 [] [])\<rparr>) \<and>
    resolve 4 (opening_world\<lparr>heap := (heap opening_world)(4 \<mapsto>
            SessionPromise (Pending [SendRealtimeInput silent_chunk]) 1 [] [])\<rparr>) =
     run_reaction 7 (SendRealtimeInput silent_chunk) (resolve 4 opening_world) \<and>
    received_by (resolve 4 (opening_world\<lparr>heap := (heap opening_world)(4 \<mapsto>
            SessionPromise (Pending [SendRealtimeInput silent_chunk]) 1 [] [])\<rparr>)) 7 =
     [silent_chunk]"
    by (auto simp: createBlob_silent_chunk)
  from 1 2 3 4 5 6 7 8 show ?thesis by blast
qed

text \<open>
  The chunk of a frame that arrives while the promise is pending is not dropped: it
  waits on the promise, and the session the promise is resolved with receives it.
\<close>

theorem pending_send_counterexample:
  "sessionPromiseRef opening_world = Some 4 \<and>
   heap opening_world 4 = Some (SessionPromise (Pending []) 1 [] []) \<and>
   heap opening_world 7 = None \<and>
   queued_sends (step (OnAudioProcess 6 [Num 0]) opening_world) 4 = [silent_chunk] \<and>
   received_by (run [OnAudioProcess 6 [Num 0], Resolved 4] opening_world) 7 = [silent_chunk]"
  by (simp add: opening_world_eq onaudioprocess_def createBlob_silent_chunk promise_then_def
      resolve_def alloc_def received_by_def queued_sends_def)


section \<open>Turns and restarts\<close>

lemma onmessage_turn:
  "is_turnComplete m \<Longrightarrow> onmessage cin cout now m w = Inr w' \<Longrightarrow>
   transcripts w' = transcripts w @ [\<lparr>user = cin, model = cout\<rparr>] \<and>
   currentInput w' = [] \<and> currentOutput w' = []"
  by (auto simp: onmessage_def handle_transcriptions_def Let_def handle_interrupted_def
      flush_playback_def dest!: handle_audio_cases split: sum.splits option.splits)

text \<open>
  C5, at the input where the code departs from it. In the open example session the two
  fragments \<open>Hel\<close> and \<open>lo\<close> accumulate to \<open>Hello\<close> in \<^verbatim>\<open>currentInput\<close>; the
  turn-complete signal then appends exactly one turn and clears both pending texts, but
  the turn holds the texts the callback captured when \<^verbatim>\<open>startSession\<close> was called, here
  the empty ones, not \<open>Hello\<close>.
\<close>

theorem turn_text_is_stale:
  "currentInput (run [OnMessage 4 0 (input_message (js ''Hel'')),
                      OnMessage 4 0 (input_message (js ''lo''))] open_world) = js ''Hello'' \<and>
   transcripts (run [OnMessage 4 0 (input_message (js ''Hel'')),
                     OnMessage 4 0 (input_message (js ''lo'')),
                     OnMessage 4 0 turn_complete_message] open_world) =
     [\<lparr>user = [], model = []\<rparr>] \<and>
   currentInput (run [OnMessage 4 0 (input_message (js ''Hel'')),
                      OnMessage 4 0 (input_message (js ''lo'')),
                      OnMessage 4 0 turn_complete_message] open_world) = [] \<and>
   currentOutput (run [OnMessage 4 0 (input_message (js ''Hel'')),
                       OnMessage 4 0 (input_message (js ''lo'')),
                       OnMessage 4 0 turn_complete_message] open_world) = []"
  by (simp add: open_world_eq onmessage_def handle_audio_def input_message_def
      turn_complete_message_def handle_interrupted_def handle_transcriptions_def js_def Let_def)

lemma startSession_NoFault:
  "startSession NoFault w =
     w\<lparr>error := None, transcripts := [], currentInput := [], currentOutput := [],
       isSessionActive := True,
       heap := (heap w)(nextHandle w := None,
                 Suc (nextHandle w) \<mapsto> MediaStream False,
                 Suc (Suc (nextHandle w)) \<mapsto> AudioContext 16000 False,
                 Suc (Suc (Suc (nextHandle w))) \<mapsto> AudioContext 24000 False,
                 Suc (Suc (Suc (Suc (nextHandle w)))) \<mapsto>
                   SessionPromise (Pending []) (Suc (nextHandle w)) (currentInput w) (currentOutput w)),
       nextHandle := nextHandle w + 5,
       mediaStreamRef := Some (Suc (nextHandle w)),
       inputAudioContextRef := Some (Suc (Suc (nextHandle w))),
       outputAudioContextRef := Some (Suc (Suc (Suc (nextHandle w)))),
       sessionPromiseRef := Some (Suc (Suc (Suc (Suc (nextHandle w)))))\<rparr>"
  by (simp add: startSession_def startSession_begin_def startSession_resume_def alloc_def
      acquire_stream_def create_input_def create_output_def connect_def Let_def)

text \<open>
  \<^verbatim>\<open>startSession\<close> has no check for a session that is already there: the button is
  the guard, which calls \<^verbatim>\<open>stopSession\<close> while \<^verbatim>\<open>isSessionActive\<close> holds.

  C4, at an input where the code departs from it. A click while \<^verbatim>\<open>getUserMedia\<close> is
  pending clears \<^verbatim>\<open>isSessionActive\<close> and cancels nothing, so the session opens with the
  button showing \<open>Start Conversation\<close>. The next click is a second \<^verbatim>\<open>startSession\<close>
  with that session open. It reports no error and overwrites the refs of the stream,
  the contexts and the session promise. The first session is not left as it was: the
  frames of its script processor, which it received before, now wait on the new
  promise. And it is never released: after the click that stops the second session
  every ref is \<^verbatim>\<open>null\<close>, while the first stream is still live, the first two contexts
  are not closed and the first session is open.
\<close>

theorem second_start_leaks_session:
  "\<not> isSessionActive orphan_world \<and>
   sessionPromiseRef orphan_world = Some 4 \<and> mediaStreamRef orphan_world = Some 1 \<and>
   heap orphan_world 4 = Some (SessionPromise (Fulfilled 7) 1 [] []) \<and>
   heap orphan_world 7 = Some (Session False False []) \<and>
   received_by (step (OnAudioProcess 6 [Num 0]) orphan_world) 7 = [silent_chunk] \<and>
   step Click orphan_world = snd (startSession_begin orphan_world) \<and>
   error restarted_world = None \<and> isSessionActive restarted_world \<and>
   sessionPromiseRef restarted_world = Some 12 \<and> mediaStreamRef restarted_world = Some 9 \<and>
   inputAudioContextRef restarted_world = Some 10 \<and>
   outputAudioContextRef restarted_world = Some 11 \<and>
   scriptProcessorRef restarted_world = Some 6 \<and>
   heap restarted_world 12 = Some (SessionPromise (Pending []) 9 [] []) \<and>
   heap restarted_world 7 = Some (Session False False []) \<and>
   received_by (step (OnAudioProcess 6 [Num 0]) restarted_world) 7 = [] \<and>
   queued_sends (step (OnAudioProcess 6 [Num 0]) restarted_world) 12 = [silent_chunk] \<and>
   released restarted_stopped_world \<and> \<not> isSessionActive restarted_stopped_world \<and>
   heap restarted_stopped_world 1 = Some (MediaStream False) \<and>
   heap restarted_stopped_world 2 = Some (AudioContext 16000 False) \<and>
   heap restarted_stopped_world 3 = Some (AudioContext 24000 False) \<and>
   heap restarted_stopped_world 7 = Some (Session False False [])"
proof -
  have orphan: "\<not> isSessionActive orphan_world" "sessionPromiseRef orphan_world = Some 4"
    "mediaStreamRef orphan_world = Some 1"
    "heap orphan_world 4 = Some (SessionPromise (Fulfilled 7) 1 [] [])"
    "heap orphan_world 7 = Some (Session False False [])"
    "heap orphan_world 6 = Some (ScriptProcessorNode True)"
    by (simp_all add: orphan_world_eq open_world_eq)
  have heard: "received_by (step (OnAudioProcess 6 [Num 0]) orphan_world) 7 = [silent_chunk]"
    by (simp add: orphan onaudioprocess_def createBlob_silent_chunk promise_then_def
        received_by_def)
  have click: "step Click orphan_world = snd (startSession_begin orphan_world)"
    by (simp add: onClick_def orphan)
  have restarted: "error restarted_world = None" "isSessionActive restarted_world"
    "sessionPromiseRef restarted_world = Some 12" "mediaStreamRef restarted_world = Some 9"
    "inputAudioContextRef restarted_world = Some 10"
    "outputAudioContextRef restarted_world = Some 11"
    "scriptProcessorRef restarted_world = Some 6"
    "heap restarted_world 12 = Some (SessionPromise (Pending []) 9 [] [])"
    "heap restarted_world 7 = Some (Session False False [])"
    "heap restarted_world 6 = Some (ScriptProcessorNode True)"
    by (simp_all add: restarted_world_eq open_world_eq)
  have diverted: "received_by (step (OnAudioProcess 6 [Num 0]) restarted_world) 7 = []"
    "queued_sends (step (OnAudioProcess 6 [Num 0]) restarted_world) 12 = [silent_chunk]"
    by (simp_all add: restarted onaudioprocess_def createBlob_silent_chunk promise_then_def
        received_by_def queued_sends_def)
  have stopped: "released restarted_stopped_world" "\<not> isSessionActive restarted_stopped_world"
    "heap restarted_stopped_world 1 = Some (MediaStream False)"
    "heap restarted_stopped_world 2 = Some (AudioContext 16000 False)"
    "heap restarted_stopped_world 3 = Some (AudioContext 24000 False)"
    "heap restarted_stopped_world 7 = Some (Session False False [])"
    by (simp_all add: restarted_stopped_world_eq open_world_eq initial_world_def released_def)
  from orphan heard click restarted diverted stopped show ?thesis by simp
qed

section \<open>Invariants of an execution\<close>

lemma shape_methods [simp]:
  "shape_of (Some (track_stop ob)) = shape_of (Some ob)"
  "shape_of (Some (node_connect ob)) = shape_of (Some ob)"
  "shape_of (Some (node_disconnect ob)) = shape_of (Some ob)"
  "shape_of (Some (context_close ob)) = shape_of (Some ob)"
  "shape_of (Some (source_stop ob)) = shape_of (Some ob)"
  "shape_of (Some (session_close ob)) = shape_of (Some ob)"
  "shape_of (Some (session_fault ob)) = shape_of (Some ob)"
  by (cases ob; simp)+

lemma shape_of_update_obj [simp]:
  "(\<And>ob. shape_of (Some (f ob)) = shape_of (Some ob)) \<Longrightarrow>
   shape_of (heap (update_obj h f w) k) = shape_of (heap w k)"
  by (simp add: update_obj_def split: option.splits)

lemma shape_of_run_reaction [simp]:
  "shape_of (heap (run_reaction s r w) k) = shape_of (heap w k)"
  by (cases r) (auto split: option.splits obj.splits)

lemma shape_of_run_reactions [simp]:
  "shape_of (heap (run_reactions s rs w) k) = shape_of (heap w k)"
  by (induction rs arbitrary: w) simp_all

lemma shape_of_stop_all [simp]: "shape_of (heap (stop_all hs w) k) = shape_of (heap w k)"
  by (induction hs arbitrary: w) simp_all

lemma shape_of_promise_then_close [simp]:
  "shape_of (heap (promise_then p CloseSession w) k) = shape_of (heap w k)"
  by (auto simp: promise_then_def split: option.splits obj.splits promise_state.splits)

lemma shape_of_promise_then_send:
  "shape_of (heap (promise_then p (SendRealtimeInput b) w) k) = shape_of (heap w k) \<or>
   (\<exists>c. shape_of (heap w k) = Promise c) \<and>
   shape_of (heap (promise_then p (SendRealtimeInput b) w) k) = Promise True"
  by (auto simp: promise_then_def split: option.splits obj.splits promise_state.splits)

lemma shape_of_stopSession [simp]: "shape_of (heap (stopSession w) k) = shape_of (heap w k)"
  by (simp add: stop_defs split: option.splits)

lemmas changed_defs = changed_def shape_def alloc_def Let_def

lemma changed_Click: "changed Click w (step Click w) k"
  by (simp add: changed_defs onClick_def startSession_begin_def)

lemma changed_Unmount: "changed Unmount w (step Unmount w) k"
  by (simp add: changed_defs)

lemma changed_MediaSettled: "changed (MediaSettled c fault) w (step (MediaSettled c fault) w) k"
  by (cases fault)
    (auto simp: changed_defs startSession_resume_def acquire_stream_def create_input_def
      create_output_def connect_def start_catch_def
      split: option.splits obj.splits)

lemma changed_Resolved: "changed (Resolved p) w (step (Resolved p) w) k"
  by (auto simp: changed_defs resolve_def split: option.splits obj.splits promise_state.splits)

lemma changed_Refused: "changed (Refused p) w (step (Refused p) w) k"
  by (auto simp: changed_defs refuse_def split: option.splits obj.splits promise_state.splits)

lemma changed_OnOpen: "changed (OnOpen p) w (step (OnOpen p) w) k"
  by (auto simp: changed_defs onopen_def split: option.splits obj.splits)

lemma changed_OnError: "changed (OnError p msg) w (step (OnError p msg) w) k"
  by (auto simp: changed_defs onerror_def split: option.splits obj.splits)

lemma changed_OnClose: "changed (OnClose p) w (step (OnClose p) w) k"
  by (auto simp: changed_defs onclose_def split: option.splits obj.splits)

lemma changed_OnEnded: "changed (OnEnded h) w (step (OnEnded h) w) k"
  by (auto simp: changed_defs split: option.splits obj.splits)

lemma changed_TransportFault: "changed (TransportFault s) w (step (TransportFault s) w) k"
  by (simp add: changed_defs)

lemma changed_OnAudioProcess:
  "changed (OnAudioProcess n inputData) w (step (OnAudioProcess n inputData) w) k"
proof (cases "heap w n")
  case None
  then show ?thesis by (simp add: changed_defs)
next
  case (Some ob)
  show ?thesis
  proof (cases ob)
    case (ScriptProcessorNode c)
    with Some have proc: "\<exists>n. shape_of (heap w n) = Processor"
      by (intro exI [of _ n]) simp
    obtain b where b: "createBlob inputData = Inr b"
      using createBlob_never_fails by blast
    show ?thesis
    proof (cases "sessionPromiseRef w")
      case None
      with Some ScriptProcessorNode b show ?thesis
        by (simp add: changed_defs onaudioprocess_def)
    next
      case (Some p)
      from shape_of_promise_then_send [of p b w k] proc
      show ?thesis
        using \<open>heap w n = Some ob\<close> ScriptProcessorNode b Some
        by (auto simp: changed_def shape_def onaudioprocess_def)
    qed
  qed (use Some in \<open>simp_all add: changed_defs\<close>)
qed

lemma shape_of_flush [simp]: "shape_of (heap (flush_playback w) k) = shape_of (heap w k)"
  by (simp add: flush_playback_def)

lemma heap_transcriptions: "heap (handle_transcriptions cin cout m w) = heap w"
  by simp

lemma handle_audio_shape:
  "handle_audio now m w = r \<Longrightarrow> w' = (case r of Inl (e, v) \<Rightarrow> v | Inr v \<Rightarrow> v) \<Longrightarrow>
   nextHandle w \<le> nextHandle w' \<and>
   (shape_of (heap w' k) = shape_of (heap w k) \<or>
    nextHandle w \<le> k \<and> (\<exists>a b. shape_of (heap w' k) = Source a b))"
  by (auto simp: handle_audio_def alloc_def Let_def split: sum.splits option.splits if_splits)

lemma changed_OnMessage: "changed (OnMessage p now m) w (step (OnMessage p now m) w) k"
proof (cases "\<exists>st stream cin cout. heap w p = Some (SessionPromise st stream cin cout)")
  case False
  then show ?thesis by (auto simp: changed_defs split: option.splits obj.splits)
next
  case True
  then obtain st stream cin cout where p: "heap w p = Some (SessionPromise st stream cin cout)"
    by blast
  show ?thesis
  proof (cases "handle_audio now m w")
    case (Inl ew)
    obtain e v where ew: "ew = (e, v)" by (cases ew)
    from handle_audio_shape [OF Inl, of v k] ew
    show ?thesis using p Inl by (auto simp: changed_def shape_def onmessage_def)
  next
    case (Inr v)
    from handle_audio_shape [OF Inr, of v k]
    show ?thesis using p Inr
      by (auto simp: changed_def shape_def onmessage_def handle_interrupted_def)
  qed
qed

lemma changed_step: "changed e w (step e w) k"
  by (cases e)
    (simp_all only: changed_Click changed_Unmount changed_MediaSettled changed_Resolved
      changed_Refused changed_OnOpen changed_OnMessage changed_OnError changed_OnClose
      changed_OnAudioProcess changed_OnEnded changed_TransportFault)

lemma nextHandle_stopSession [simp]: "nextHandle (stopSession w) = nextHandle w"
  by (simp add: stop_defs split: option.splits)

lemma nextHandle_step: "nextHandle w \<le> nextHandle (step e w)"
proof (cases e)
  case (MediaSettled c fault)
  then show ?thesis
    by (cases fault)
      (auto simp: startSession_resume_def acquire_stream_def create_input_def
        create_output_def connect_def start_catch_def alloc_def Let_def
        split: option.splits obj.splits)
next
  case (OnMessage p now m)
  show ?thesis
  proof (cases "handle_audio now m w")
    case (Inl ew)
    obtain e v where ew: "ew = (e, v)" by (cases ew)
    from handle_audio_shape [OF Inl, of v 0] ew
    show ?thesis using OnMessage Inl by (auto simp: onmessage_def split: option.splits obj.splits)
  next
    case (Inr v)
    from handle_audio_shape [OF Inr, of v 0]
    show ?thesis using OnMessage Inr
      by (auto simp: onmessage_def handle_interrupted_def split: option.splits obj.splits)
  qed
next
  case (OnAudioProcess n inputData)
  obtain b where b: "createBlob inputData = Inr b"
    using createBlob_never_fails by blast
  show ?thesis using OnAudioProcess b
    by (auto simp: onaudioprocess_def split: option.splits obj.splits)
next
  case (Resolved p)
  have rr: "\<And>s rs v. nextHandle (run_reactions s rs v) = nextHandle v"
  proof -
    fix s rs v show "nextHandle (run_reactions s rs v) = nextHandle v"
      by (induction rs arbitrary: v) simp_all
  qed
  show ?thesis using Resolved
    by (auto simp: resolve_def alloc_def Let_def rr split: option.splits obj.splits promise_state.splits)
qed (auto simp: onClick_def startSession_begin_def alloc_def refuse_def onopen_def Let_def
       onerror_def onclose_def split: option.splits obj.splits promise_state.splits)

lemma received_by_shape: "shape w s \<noteq> SessionShape \<Longrightarrow> received_by w s = []"
  by (auto simp: shape_def received_by_def split: option.splits obj.splits)

lemma wired_shape: "wired w n \<longleftrightarrow> shape w n = Processor"
  by (auto simp: shape_def wired_def split: option.splits obj.splits)

lemma queued_shape: "queued_sends w p = [] \<longleftrightarrow> shape w p \<noteq> Promise True"
  by (auto simp: shape_def queued_sends_def split: option.splits obj.splits)

lemma shape_initial: "shape initial_world h = Vacant"
  by (simp add: shape_def initial_world_def)

text \<open>Without a fulfilled promise there is no session.\<close>

lemma no_session_step:
  assumes "\<forall>h. shape w h \<noteq> SessionShape" and "\<not> is_resolved e"
  shows "shape (step e w) h \<noteq> SessionShape"
  using changed_step [of e w h] assms by (auto simp: changed_def)

lemma no_session_run:
  "\<forall>h. shape w h \<noteq> SessionShape \<Longrightarrow> \<forall>e \<in> set evs. \<not> is_resolved e \<Longrightarrow>
   shape (run evs w) h \<noteq> SessionShape"
proof (induction evs arbitrary: w)
  case Nil
  then show ?case by simp
next
  case (Cons e evs)
  have "\<forall>h. shape (step e w) h \<noteq> SessionShape"
    using no_session_step [of w e] Cons.prems by simp
  then show ?case using Cons.IH [of "step e w"] Cons.prems by simp
qed

lemma unwired_step:
  assumes "unwired w" and "\<not> is_onopen e"
  shows "unwired (step e w)"
  unfolding unwired_def
proof
  fix h
  from assms(1) have "shape w h \<noteq> Processor" "shape w h \<noteq> Promise True"
    "\<not> (\<exists>n. shape w n = Processor)"
    by (simp_all add: unwired_def)
  with changed_step [of e w h] assms(2)
  show "shape (step e w) h \<noteq> Processor \<and> shape (step e w) h \<noteq> Promise True"
    by (auto simp: changed_def)
qed

lemma scriptProcessorRef_stopSession [simp]: "scriptProcessorRef (stopSession w) = None"
  by (simp add: stop_defs split: option.splits)

lemma scriptProcessorRef_step:
  assumes "scriptProcessorRef w = None" and "\<not> is_onopen e"
  shows "scriptProcessorRef (step e w) = None"
proof (cases e)
  case (MediaSettled c fault)
  then show ?thesis using assms
    by (cases fault)
      (auto simp: startSession_resume_def acquire_stream_def create_input_def
        create_output_def connect_def start_catch_def alloc_def Let_def
        split: option.splits obj.splits)
next
  case (OnMessage p now m)
  have ha: "scriptProcessorRef v = None"
    if "handle_audio now m w = r" "v = (case r of Inl (e, v) \<Rightarrow> v | Inr v \<Rightarrow> v)" for r v
    using that assms(1)
    by (auto simp: handle_audio_def alloc_def Let_def split: sum.splits option.splits if_splits)
  show ?thesis
  proof (cases "handle_audio now m w")
    case (Inl ew)
    obtain e v where ew: "ew = (e, v)" by (cases ew)
    from ha [OF Inl, of v] ew
    show ?thesis using OnMessage Inl assms(1)
      by (auto simp: onmessage_def split: option.splits obj.splits)
  next
    case (Inr v)
    from ha [OF Inr, of v]
    show ?thesis using OnMessage Inr assms(1)
      by (auto simp: onmessage_def handle_interrupted_def split: option.splits obj.splits)
  qed
next
  case (OnAudioProcess n inputData)
  obtain b where b: "createBlob inputData = Inr b"
    using createBlob_never_fails by blast
  show ?thesis using OnAudioProcess b assms
    by (auto simp: onaudioprocess_def split: option.splits obj.splits)
next
  case (Resolved p)
  have rr: "\<And>s rs v. scriptProcessorRef (run_reactions s rs v) = scriptProcessorRef v"
  proof -
    fix s rs v show "scriptProcessorRef (run_reactions s rs v) = scriptProcessorRef v"
      by (induction rs arbitrary: v) simp_all
  qed
  show ?thesis using Resolved assms
    by (auto simp: resolve_def alloc_def Let_def rr split: option.splits obj.splits promise_state.splits)
qed (use assms in \<open>auto simp: onClick_def startSession_begin_def alloc_def refuse_def Let_def
       onerror_def onclose_def split: option.splits obj.splits promise_state.splits\<close>)

lemma received_by_rcv: "received_by w s = rcv_of (heap w s)"
  by (auto simp: received_by_def split: option.splits obj.splits)

lemma rcv_methods [simp]:
  "rcv_of (Some (track_stop ob)) = rcv_of (Some ob)"
  "rcv_of (Some (node_connect ob)) = rcv_of (Some ob)"
  "rcv_of (Some (node_disconnect ob)) = rcv_of (Some ob)"
  "rcv_of (Some (context_close ob)) = rcv_of (Some ob)"
  "rcv_of (Some (source_stop ob)) = rcv_of (Some ob)"
  "rcv_of (Some (session_close ob)) = rcv_of (Some ob)"
  "rcv_of (Some (session_fault ob)) = rcv_of (Some ob)"
  by (cases ob; simp)+

lemma rcv_update_obj [simp]:
  "(\<And>ob. rcv_of (Some (f ob)) = rcv_of (Some ob)) \<Longrightarrow>
   rcv_of (heap (update_obj h f w) k) = rcv_of (heap w k)"
  by (simp add: update_obj_def split: option.splits)

lemma rcv_stop_all [simp]: "rcv_of (heap (stop_all hs w) k) = rcv_of (heap w k)"
  by (induction hs arbitrary: w) simp_all

lemma rcv_promise_then_close [simp]:
  "rcv_of (heap (promise_then p CloseSession w) k) = rcv_of (heap w k)"
  by (auto simp: promise_then_def split: option.splits obj.splits promise_state.splits)

lemma rcv_stopSession [simp]: "rcv_of (heap (stopSession w) k) = rcv_of (heap w k)"
  by (simp add: stop_defs split: option.splits)

lemma rcv_run_reactions:
  "pending_sends (Pending q) = [] \<Longrightarrow> rcv_of (heap (run_reactions s q w) k) = rcv_of (heap w k)"
proof (induction q arbitrary: w)
  case Nil
  then show ?case by simp
next
  case (Cons r q)
  then show ?case by (cases r) simp_all
qed

lemma unwired_promise:
  "unwired w \<Longrightarrow> heap w p = Some (SessionPromise (Pending q) stream cin cout) \<Longrightarrow>
   pending_sends (Pending q) = []"
proof -
  assume u: "unwired w" and p: "heap w p = Some (SessionPromise (Pending q) stream cin cout)"
  from u have "shape w p \<noteq> Promise True" by (simp add: unwired_def)
  with p show ?thesis by (simp add: shape_def)
qed

lemma unwired_processor: "unwired w \<Longrightarrow> heap w n \<noteq> Some (ScriptProcessorNode c)"
proof
  assume u: "unwired w" and n: "heap w n = Some (ScriptProcessorNode c)"
  from u have "shape w n \<noteq> Processor" by (simp add: unwired_def)
  with n show False by (simp add: shape_def)
qed

lemma received_step:
  assumes "unwired w"
  shows "rcv_of (heap (step e w) s) = rcv_of (heap w s) \<or> rcv_of (heap (step e w) s) = []"
proof (cases e)
  case (MediaSettled c fault)
  then show ?thesis
    by (cases fault)
      (auto simp: startSession_resume_def acquire_stream_def create_input_def
        create_output_def connect_def start_catch_def alloc_def Let_def
        split: option.splits obj.splits)
next
  case (Resolved p)
  show ?thesis
  proof (cases "\<exists>q stream cin cout. heap w p = Some (SessionPromise (Pending q) stream cin cout)")
    case False
    with Resolved show ?thesis
      by (auto simp: resolve_def split: option.splits obj.splits promise_state.splits)
  next
    case True
    then obtain q stream cin cout
      where p: "heap w p = Some (SessionPromise (Pending q) stream cin cout)" by blast
    from unwired_promise [OF assms p] have "pending_sends (Pending q) = []" .
    then show ?thesis using Resolved p
      by (auto simp: resolve_def alloc_def Let_def rcv_run_reactions)
  qed
next
  case (OnMessage p now m)
  have ha: "rcv_of (heap v s) = rcv_of (heap w s) \<or> rcv_of (heap v s) = []"
    if "handle_audio now m w = r" "v = (case r of Inl (e, v) \<Rightarrow> v | Inr v \<Rightarrow> v)" for r v
    using that
    by (auto simp: handle_audio_def alloc_def Let_def split: sum.splits option.splits if_splits)
  show ?thesis
  proof (cases "handle_audio now m w")
    case (Inl ew)
    obtain e v where ew: "ew = (e, v)" by (cases ew)
    from ha [OF Inl, of v] ew
    show ?thesis using OnMessage Inl
      by (auto simp: onmessage_def split: option.splits obj.splits)
  next
    case (Inr v)
    from ha [OF Inr, of v]
    show ?thesis using OnMessage Inr
      by (auto simp: onmessage_def handle_interrupted_def flush_playback_def
          split: option.splits obj.splits)
  qed
next
  case (OnAudioProcess n inputData)
  with unwired_processor [OF assms, of n] show ?thesis
    by (auto split: option.splits obj.splits)
qed (auto simp: onClick_def startSession_begin_def alloc_def refuse_def onopen_def Let_def
       onerror_def onclose_def split: option.splits obj.splits promise_state.splits)

lemma quiet_run:
  "unwired w \<Longrightarrow> scriptProcessorRef w = None \<Longrightarrow> \<forall>s. received_by w s = [] \<Longrightarrow>
   \<forall>e \<in> set evs. \<not> is_onopen e \<Longrightarrow>
   unwired (run evs w) \<and> scriptProcessorRef (run evs w) = None \<and>
   (\<forall>s. received_by (run evs w) s = [])"
proof (induction evs arbitrary: w)
  case Nil
  then show ?case by simp
next
  case (Cons e evs)
  from Cons.prems have e: "\<not> is_onopen e" by simp
  have 1: "unwired (step e w)" using Cons.prems(1) e by (rule unwired_step)
  have 2: "scriptProcessorRef (step e w) = None" using Cons.prems(2) e by (rule scriptProcessorRef_step)
  have 3: "\<forall>s. received_by (step e w) s = []"
    using received_step [OF Cons.prems(1), of e] Cons.prems(3) by (auto simp: received_by_rcv)
  from Cons.IH [OF 1 2 3] Cons.prems(4) show ?case by simp
qed

text \<open>
  C7. In an execution in which no session promise is fulfilled, no session has accepted
  a chunk. In an execution in which no \<^verbatim>\<open>onopen\<close> ran, \<^verbatim>\<open>scriptProcessorRef\<close> is \<^verbatim>\<open>null\<close>,
  no script processor exists, no send waits on a promise and no session has accepted a
  chunk: capture is wired up by \<^verbatim>\<open>onopen\<close> and by nothing else.
\<close>

theorem no_send_before_open:
  "((\<forall>e \<in> set evs. \<not> is_resolved e) \<longrightarrow> (\<forall>s. received_by (run evs initial_world) s = [])) \<and>
   ((\<forall>e \<in> set evs. \<not> is_onopen e) \<longrightarrow>
      scriptProcessorRef (run evs initial_world) = None \<and>
      (\<forall>n. \<not> wired (run evs initial_world) n) \<and>
      (\<forall>p. queued_sends (run evs initial_world) p = []) \<and>
      (\<forall>s. received_by (run evs initial_world) s = []))"
proof (intro conjI impI)
  assume "\<forall>e \<in> set evs. \<not> is_resolved e"
  then have "\<forall>h. shape (run evs initial_world) h \<noteq> SessionShape"
    using no_session_run [of initial_world evs] by (simp add: shape_initial)
  then show "\<forall>s. received_by (run evs initial_world) s = []"
    by (simp add: received_by_shape)
next
  assume a: "\<forall>e \<in> set evs. \<not> is_onopen e"
  have u: "unwired initial_world" by (simp add: unwired_def shape_initial)
  have r: "scriptProcessorRef initial_world = None" "\<forall>s. received_by initial_world s = []"
    by (simp_all add: initial_world_def received_by_def)
  note q = quiet_run [OF u r a]
  from q show "scriptProcessorRef (run evs initial_world) = None" by simp
  from q show "\<forall>n. \<not> wired (run evs initial_world) n" by (simp add: wired_shape unwired_def)
  from q show "\<forall>p. queued_sends (run evs initial_world) p = []"
    by (simp add: queued_shape unwired_def)
  from q show "\<forall>s. received_by (run evs initial_world) s = []" by simp
qed

lemma times_of_shape:
  "shape w h = Source a b \<Longrightarrow> source_start w h = a \<and> source_end w h = b"
  by (cases "heap w h" rule: shape_of.cases)
    (simp_all add: shape_def source_start_def source_end_def)

lemma duration_nonneg: "0 \<le> duration b"
  by (simp add: duration_def)

lemma source_kept:
  assumes "k < nextHandle w" and "shape w k = Source a b"
  shows "shape (step e w) k = Source a b"
  using changed_step [of e w k] assms by (auto simp: changed_def)

lemma playback_effect_same:
  "sourcesRef w' = sourcesRef w \<Longrightarrow> nextStartTimeRef w' = nextStartTimeRef w \<Longrightarrow>
   playback_effect w w'"
  by (simp add: playback_effect_def)

lemma sourcesRef_stopSession [simp]: "sourcesRef (stopSession w) = []"
  by (simp add: stop_defs split: option.splits)

lemma handle_audio_failed:
  "handle_audio now m w = Inl (e, v) \<Longrightarrow>
   sourcesRef v = sourcesRef w \<and> nextStartTimeRef w \<le> nextStartTimeRef v"
  by (auto simp: handle_audio_def alloc_def Let_def split: sum.splits option.splits if_splits)

lemma playback_effect_audio:
  assumes "\<forall>h \<in> set (sourcesRef w). h < nextHandle w" and "handle_audio now m w = Inr v"
  shows "playback_effect w v"
proof -
  from handle_audio_cases [OF assms(2)]
  consider "v = w"
    | buffer where "0 \<le> max (nextStartTimeRef w) now"
      "v = w\<lparr>heap := (heap w)(nextHandle w \<mapsto>
                BufferSourceNode buffer (max (nextStartTimeRef w) now) False),
             nextHandle := Suc (nextHandle w),
             nextStartTimeRef := max (nextStartTimeRef w) now + duration buffer,
             sourcesRef := (if nextHandle w \<in> set (sourcesRef w) then sourcesRef w
                            else sourcesRef w @ [nextHandle w])\<rparr>"
    by blast
  then show ?thesis
  proof cases
    case 1
    then show ?thesis by (simp add: playback_effect_def)
  next
    case 2
    from assms(1) have fresh: "nextHandle w \<notin> set (sourcesRef w)" by auto
    have "sourcesRef v = sourcesRef w @ [nextHandle w] \<and>
        nextStartTimeRef w \<le> max (nextStartTimeRef w) now \<and> 0 \<le> duration buffer \<and>
        shape v (nextHandle w) =
          Source (max (nextStartTimeRef w) now) (max (nextStartTimeRef w) now + duration buffer) \<and>
        nextStartTimeRef v = max (nextStartTimeRef w) now + duration buffer \<and>
        nextHandle v = Suc (nextHandle w)"
      using 2(2) fresh by (simp add: shape_def duration_nonneg)
    then show ?thesis unfolding playback_effect_def by blast
  qed
qed

lemma playback_effect_step:
  assumes "\<forall>h \<in> set (sourcesRef w). h < nextHandle w"
  shows "playback_effect w (step e w)"
proof (cases e)
  case (MediaSettled c fault)
  then show ?thesis
    by (cases fault)
      (auto simp: playback_effect_def startSession_resume_def acquire_stream_def
        create_input_def create_output_def connect_def start_catch_def alloc_def Let_def
        split: option.splits obj.splits)
next
  case (Resolved p)
  have rr: "\<And>s rs v. sourcesRef (run_reactions s rs v) = sourcesRef v \<and>
      nextStartTimeRef (run_reactions s rs v) = nextStartTimeRef v"
  proof -
    fix s rs v
    show "sourcesRef (run_reactions s rs v) = sourcesRef v \<and>
      nextStartTimeRef (run_reactions s rs v) = nextStartTimeRef v"
      by (induction rs arbitrary: v) simp_all
  qed
  show ?thesis using Resolved
    by (auto simp: playback_effect_def resolve_def alloc_def Let_def rr
        split: option.splits obj.splits promise_state.splits)
next
  case (OnMessage p now m)
  show ?thesis
  proof (cases "\<exists>st stream cin cout. heap w p = Some (SessionPromise st stream cin cout)")
    case False
    with OnMessage show ?thesis
      by (auto simp: playback_effect_def split: option.splits obj.splits)
  next
    case True
    then obtain st stream cin cout where p: "heap w p = Some (SessionPromise st stream cin cout)"
      by blast
    show ?thesis
    proof (cases "handle_audio now m w")
      case (Inl ew)
      obtain e v where ew: "ew = (e, v)" by (cases ew)
      from handle_audio_failed [of now m w e v] Inl ew
      show ?thesis using OnMessage p
        by (simp add: playback_effect_def onmessage_def)
    next
      case (Inr v)
      have pe: "playback_effect w v" using assms Inr by (rule playback_effect_audio)
      show ?thesis
      proof (cases "is_interrupted m")
        case True
        then show ?thesis using OnMessage Inr p
          by (simp add: playback_effect_def onmessage_def handle_interrupted_def)
      next
        case False
        then show ?thesis using OnMessage Inr p pe
          by (simp add: playback_effect_def onmessage_def handle_interrupted_def shape_def)
      qed
    qed
  qed
next
  case (OnAudioProcess n inputData)
  obtain b where b: "createBlob inputData = Inr b"
    using createBlob_never_fails by blast
  show ?thesis using OnAudioProcess b
    by (auto simp: playback_effect_def onaudioprocess_def split: option.splits obj.splits)
next
  case (OnEnded h)
  then show ?thesis
    by (auto simp: playback_effect_def split: option.splits obj.splits)
qed (auto simp: playback_effect_def onClick_def startSession_begin_def alloc_def refuse_def
       onopen_def Let_def onerror_def onclose_def
       split: option.splits obj.splits promise_state.splits)

lemma tracked_ok_step:
  assumes "tracked_ok w"
  shows "tracked_ok (step e w)"
proof -
  let ?w' = "step e w"
  let ?P = "\<lambda>h k. source_end w h \<le> source_start w k"
  let ?P' = "\<lambda>h k. source_end ?w' h \<le> source_start ?w' k"
  from assms have sorted: "sorted_wrt ?P (sourcesRef w)"
    and ends: "\<forall>h \<in> set (sourcesRef w). source_end w h \<le> nextStartTimeRef w"
    and old: "\<forall>h \<in> set (sourcesRef w). h < nextHandle w"
    and src: "\<forall>h \<in> set (sourcesRef w). \<exists>a b. shape w h = Source a b"
    by (auto simp: tracked_ok_def gapless_def)
  have mono: "nextHandle w \<le> nextHandle ?w'" by (rule nextHandle_step)
  have kept: "shape ?w' h = shape w h" if "h \<in> set (sourcesRef w)" for h
  proof -
    from that old src obtain a b where "h < nextHandle w" "shape w h = Source a b" by blast
    then show ?thesis using source_kept [of h w a b e] by simp
  qed
  have times: "source_start ?w' h = source_start w h \<and> source_end ?w' h = source_end w h"
    if "h \<in> set (sourcesRef w)" for h
  proof -
    from that src obtain a b where ab: "shape w h = Source a b" by blast
    with kept [OF that] have "shape ?w' h = Source a b" by simp
    with ab show ?thesis using times_of_shape by metis
  qed
  have sorted': "sorted_wrt ?P' (sourcesRef w)"
    using sorted times by (auto intro: sorted_wrt_mono_rel [of _ ?P])
  from playback_effect_step [OF old, of e]
  consider "sourcesRef ?w' = []"
    | "sourcesRef ?w' = sourcesRef w" "nextStartTimeRef w \<le> nextStartTimeRef ?w'"
    | h where "sourcesRef ?w' = removeAll h (sourcesRef w)"
        "nextStartTimeRef ?w' = nextStartTimeRef w"
    | s d where "sourcesRef ?w' = sourcesRef w @ [nextHandle w]" "nextStartTimeRef w \<le> s"
        "0 \<le> d" "shape ?w' (nextHandle w) = Source s (s + d)"
        "nextStartTimeRef ?w' = s + d" "nextHandle ?w' = Suc (nextHandle w)"
    unfolding playback_effect_def by blast
  then show ?thesis
  proof cases
    case 1
    then show ?thesis by (simp add: tracked_ok_def gapless_def)
  next
    case 2
    then show ?thesis
      using sorted' ends old src mono times kept
      by (fastforce simp: tracked_ok_def gapless_def)
  next
    case 3
    have sub: "set (removeAll h (sourcesRef w)) \<subseteq> set (sourcesRef w)" by auto
    have "sorted_wrt ?P' (removeAll h (sourcesRef w))"
      using sorted' by (simp add: removeAll_filter_not_eq sorted_wrt_filter)
    then show ?thesis
      using 3 ends old src mono times kept sub
      by (fastforce simp: tracked_ok_def gapless_def)
  next
    case 4
    from times_of_shape [OF 4(4)]
    have new: "source_start ?w' (nextHandle w) = s" "source_end ?w' (nextHandle w) = s + d"
      by simp_all
    have before: "source_end ?w' h \<le> s" if "h \<in> set (sourcesRef w)" for h
      using times [OF that] ends that 4(2) by fastforce
    have "sorted_wrt ?P' (sourcesRef w @ [nextHandle w])"
      using sorted' before new by (simp add: sorted_wrt_append)
    moreover have "\<forall>h \<in> set (sourcesRef w @ [nextHandle w]). source_end ?w' h \<le> s + d"
      using before new 4(3) by fastforce
    moreover have "\<forall>h \<in> set (sourcesRef w @ [nextHandle w]).
        h < nextHandle ?w' \<and> (\<exists>a b. shape ?w' h = Source a b)"
      using old src kept 4(4,6) by fastforce
    ultimately show ?thesis using 4(1,5) by (simp add: tracked_ok_def gapless_def)
  qed
qed

lemma tracked_ok_run: "tracked_ok w \<Longrightarrow> tracked_ok (run evs w)"
  by (induction evs arbitrary: w) (simp_all add: tracked_ok_step)

lemma tracked_ok_initial: "tracked_ok initial_world"
  by (simp add: tracked_ok_def gapless_def initial_world_def)

lemma times_source_stop [simp]:
  "start_of (map_option source_stop x) = start_of x"
  "end_of (map_option source_stop x) = end_of x"
  by (cases x rule: start_of.cases; simp)+

lemma times_flush [simp]:
  "source_start (flush_playback w) h = source_start w h"
  "source_end (flush_playback w) h = source_end w h"
  by (simp_all add: source_start_def source_end_def heap_flush)

lemma times_interrupted [simp]:
  "source_start (handle_interrupted m w) h = source_start w h"
  "source_end (handle_interrupted m w) h = source_end w h"
  by (simp_all add: handle_interrupted_def)

lemma times_transcriptions [simp]:
  "source_start (handle_transcriptions cin cout m w) h = source_start w h"
  "source_end (handle_transcriptions cin cout m w) h = source_end w h"
  by (simp_all add: source_start_def source_end_def)

lemma onmessage_scheduled:
  assumes "has_audio m" and "onmessage cin cout now m w = Inr v"
  obtains buffer where
    "source_start v (nextHandle w) = max (nextStartTimeRef w) now"
    "source_end v (nextHandle w) = max (nextStartTimeRef w) now + duration buffer"
    "nextHandle v = Suc (nextHandle w)"
    "\<forall>h. h \<noteq> nextHandle w \<longrightarrow> source_start v h = source_start w h \<and> source_end v h = source_end w h"
    "\<not> is_interrupted m \<longrightarrow>
       nextStartTimeRef v = max (nextStartTimeRef w) now + duration buffer \<and>
       heap v (nextHandle w) = Some (BufferSourceNode buffer (max (nextStartTimeRef w) now) False)"
proof -
  from assms(2) obtain u where u: "handle_audio now m w = Inr u"
    and v: "v = handle_transcriptions cin cout m (handle_interrupted m u)"
    by (auto simp: onmessage_def split: sum.splits)
  from handle_audio_cases [OF u] assms(1) obtain buffer where
    u': "u = w\<lparr>heap := (heap w)(nextHandle w \<mapsto>
                BufferSourceNode buffer (max (nextStartTimeRef w) now) False),
             nextHandle := Suc (nextHandle w),
             nextStartTimeRef := max (nextStartTimeRef w) now + duration buffer,
             sourcesRef := (if nextHandle w \<in> set (sourcesRef w) then sourcesRef w
                            else sourcesRef w @ [nextHandle w])\<rparr>"
    by blast
  have 1: "source_start u (nextHandle w) = max (nextStartTimeRef w) now"
    "source_end u (nextHandle w) = max (nextStartTimeRef w) now + duration buffer"
    "nextHandle u = Suc (nextHandle w)"
    "\<forall>h. h \<noteq> nextHandle w \<longrightarrow> source_start u h = source_start w h \<and> source_end u h = source_end w h"
    "nextStartTimeRef u = max (nextStartTimeRef w) now + duration buffer"
    "heap u (nextHandle w) = Some (BufferSourceNode buffer (max (nextStartTimeRef w) now) False)"
    by (simp_all add: u' source_start_def source_end_def)
  show ?thesis
  proof (rule that [of buffer])
    show "source_start v (nextHandle w) = max (nextStartTimeRef w) now" by (simp add: v 1)
    show "source_end v (nextHandle w) = max (nextStartTimeRef w) now + duration buffer"
      by (simp add: v 1)
    show "nextHandle v = Suc (nextHandle w)" by (simp add: v 1 handle_interrupted_def)
    show "\<forall>h. h \<noteq> nextHandle w \<longrightarrow>
        source_start v h = source_start w h \<and> source_end v h = source_end w h"
      by (simp add: v 1)
    show "\<not> is_interrupted m \<longrightarrow>
       nextStartTimeRef v = max (nextStartTimeRef w) now + duration buffer \<and>
       heap v (nextHandle w) = Some (BufferSourceNode buffer (max (nextStartTimeRef w) now) False)"
      by (simp add: v 1 handle_interrupted_def)
  qed
qed

text \<open>
  C2. In every execution from the initial state the tracked sources are gapless: each
  ends before the next one in arrival order starts. A buffer is scheduled at
  \<open>max nextStartTimeRef now\<close>, and \<^verbatim>\<open>nextStartTimeRef\<close> becomes that start plus the
  buffer's duration; so of two buffers scheduled in a row the second starts at
  \<open>max\<close> of the first one's end and the clock, never before that end, and exactly at
  that end, the first one's start plus its duration, when the clock has not passed it.
\<close>

theorem gapless_playback:
  "gapless (run evs initial_world) \<and>
   (\<forall>i. Suc i < length (sourcesRef (run evs initial_world)) \<longrightarrow>
      source_end (run evs initial_world) (sourcesRef (run evs initial_world) ! i)
        \<le> source_start (run evs initial_world) (sourcesRef (run evs initial_world) ! Suc i)) \<and>
   (has_audio m1 \<longrightarrow> \<not> is_interrupted m1 \<longrightarrow> onmessage cin cout now1 m1 w = Inr v1 \<longrightarrow>
    has_audio m2 \<longrightarrow> onmessage cin cout now2 m2 v1 = Inr v2 \<longrightarrow>
      source_start v2 (nextHandle w) = max (nextStartTimeRef w) now1 \<and>
      nextStartTimeRef v1 = source_end v2 (nextHandle w) \<and>
      (\<exists>buffer. heap v1 (nextHandle w) =
           Some (BufferSourceNode buffer (max (nextStartTimeRef w) now1) False) \<and>
         source_end v2 (nextHandle w) = source_start v2 (nextHandle w) + duration buffer) \<and>
      source_start v2 (nextHandle v1) = max (nextStartTimeRef v1) now2 \<and>
      source_end v2 (nextHandle w) \<le> source_start v2 (nextHandle v1) \<and>
      (now2 \<le> source_end v2 (nextHandle w) \<longrightarrow>
         source_start v2 (nextHandle v1) = source_end v2 (nextHandle w)))"
proof -
  let ?W = "run evs initial_world"
  have g: "gapless ?W"
    using tracked_ok_run [OF tracked_ok_initial, of evs] by (simp add: tracked_ok_def)
  then have "sorted_wrt (\<lambda>h k. source_end ?W h \<le> source_start ?W k) (sourcesRef ?W)"
    by (simp add: gapless_def)
  then have adj: "\<forall>i. Suc i < length (sourcesRef ?W) \<longrightarrow>
      source_end ?W (sourcesRef ?W ! i) \<le> source_start ?W (sourcesRef ?W ! Suc i)"
    by (simp add: sorted_wrt_iff_nth_less)
  have two: "source_start v2 (nextHandle w) = max (nextStartTimeRef w) now1 \<and>
      nextStartTimeRef v1 = source_end v2 (nextHandle w) \<and>
      (\<exists>buffer. heap v1 (nextHandle w) =
           Some (BufferSourceNode buffer (max (nextStartTimeRef w) now1) False) \<and>
         source_end v2 (nextHandle w) = source_start v2 (nextHandle w) + duration buffer) \<and>
      source_start v2 (nextHandle v1) = max (nextStartTimeRef v1) now2 \<and>
      source_end v2 (nextHandle w) \<le> source_start v2 (nextHandle v1) \<and>
      (now2 \<le> source_end v2 (nextHandle w) \<longrightarrow>
         source_start v2 (nextHandle v1) = source_end v2 (nextHandle w))"
    if a1: "has_audio m1" and n1: "\<not> is_interrupted m1"
      and r1: "onmessage cin cout now1 m1 w = Inr v1"
      and a2: "has_audio m2" and r2: "onmessage cin cout now2 m2 v1 = Inr v2"
  proof -
    from a1 r1 obtain b1 where
      s1: "source_start v1 (nextHandle w) = max (nextStartTimeRef w) now1"
      and e1: "source_end v1 (nextHandle w) = max (nextStartTimeRef w) now1 + duration b1"
      and h1: "nextHandle v1 = Suc (nextHandle w)"
      and i1: "\<not> is_interrupted m1 \<longrightarrow>
         nextStartTimeRef v1 = max (nextStartTimeRef w) now1 + duration b1 \<and>
         heap v1 (nextHandle w) =
           Some (BufferSourceNode b1 (max (nextStartTimeRef w) now1) False)"
      by (rule onmessage_scheduled) blast
    from a2 r2 obtain b2 where
      s2: "source_start v2 (nextHandle v1) = max (nextStartTimeRef v1) now2"
      and o2: "\<forall>h. h \<noteq> nextHandle v1 \<longrightarrow>
          source_start v2 h = source_start v1 h \<and> source_end v2 h = source_end v1 h"
      by (rule onmessage_scheduled) blast
    from o2 h1 have same: "source_start v2 (nextHandle w) = source_start v1 (nextHandle w)"
      "source_end v2 (nextHandle w) = source_end v1 (nextHandle w)" by simp_all
    from i1 n1 have nst: "nextStartTimeRef v1 = max (nextStartTimeRef w) now1 + duration b1"
      and hp: "heap v1 (nextHandle w) =
           Some (BufferSourceNode b1 (max (nextStartTimeRef w) now1) False)" by simp_all
    show ?thesis
      using s1 e1 s2 same nst hp by auto
  qed
  from g adj two show ?thesis by blast
qed

lemma has_audio_silence:
  "has_audio (audio_message (js ''AAAAAA==''))" "\<not> is_interrupted (audio_message (js ''AAAAAA==''))"
  by (simp_all add: has_audio_def audio_message_def js_def)

lemma onmessage_open_world:
  "onmessage [] [] 1 (audio_message (js ''AAAAAA=='')) open_world = Inr playing_world"
proof -
  have "heap open_world 4 = Some (SessionPromise (Fulfilled 7) 1 [] [])"
    by (simp add: open_world_eq)
  moreover have "\<exists>v. onmessage [] [] 1 (audio_message (js ''AAAAAA=='')) open_world = Inr v"
  proof -
    have ne: "js ''AAAAAA=='' \<noteq> []" by (simp add: js_def)
    show ?thesis
      by (simp add: open_world_eq onmessage_def handle_audio_def audio_message_def ne
          decode_silence decodeAudioData_silence [unfolded One_nat_def] alloc_def Let_def)
  qed
  ultimately show ?thesis by (auto simp: playing_world_def)
qed

lemma onmessage_playing_world:
  "onmessage [] [] 1 (audio_message (js ''AAAAAA=='')) playing_world = Inr chained_world"
proof -
  have "heap playing_world 4 = Some (SessionPromise (Fulfilled 7) 1 [] [])"
    by (simp add: playing_world_eq open_world_eq)
  moreover have "\<exists>v. onmessage [] [] 1 (audio_message (js ''AAAAAA=='')) playing_world = Inr v"
  proof -
    have ne: "js ''AAAAAA=='' \<noteq> []" by (simp add: js_def)
    show ?thesis
      by (simp add: playing_world_eq open_world_eq onmessage_def handle_audio_def
          audio_message_def ne decode_silence decodeAudioData_silence [unfolded One_nat_def]
          alloc_def Let_def)
  qed
  ultimately show ?thesis by (auto simp: chained_world_def)
qed

theorem gapless_playback_witness:
  "gapless (run [Click, MediaSettled 0 NoFault, OnOpen 4, Resolved 4,
                 OnMessage 4 1 (audio_message (js ''AAAAAA=='')),
                 OnMessage 4 1 (audio_message (js ''AAAAAA==''))] initial_world) \<and>
   source_start chained_world 8 = 1 \<and> source_end chained_world 8 = 1 + 1 / 12000 \<and>
   source_start chained_world 9 = source_end chained_world 8"
proof -
  note t = gapless_playback [where evs = "[Click, MediaSettled 0 NoFault, OnOpen 4, Resolved 4,
                 OnMessage 4 1 (audio_message (js ''AAAAAA=='')),
                 OnMessage 4 1 (audio_message (js ''AAAAAA==''))]"
      and ?m1.0 = "audio_message (js ''AAAAAA=='')" and ?m2.0 = "audio_message (js ''AAAAAA=='')"
      and cin = "[]" and cout = "[]" and ?now1.0 = 1 and ?now2.0 = 1 and w = open_world
      and ?v1.0 = playing_world and ?v2.0 = chained_world]
  have n: "nextHandle open_world = 8" "nextHandle playing_world = 9"
    "nextStartTimeRef open_world = 0" "nextStartTimeRef playing_world = 1 + 1 / 12000"
    by (simp_all add: playing_world_eq open_world_eq)
  from t has_audio_silence onmessage_open_world onmessage_playing_world
  have "source_start chained_world (nextHandle open_world) = max (nextStartTimeRef open_world) 1 \<and>
      nextStartTimeRef playing_world = source_end chained_world (nextHandle open_world) \<and>
      (1 \<le> source_end chained_world (nextHandle open_world) \<longrightarrow>
         source_start chained_world (nextHandle playing_world) =
           source_end chained_world (nextHandle open_world))"
    by blast
  then have "source_start chained_world 8 = 1 \<and> source_end chained_world 8 = 1 + 1 / 12000 \<and>
     source_start chained_world 9 = source_end chained_world 8"
    by (simp add: n)
  with t show ?thesis by blast
qed

theorem no_send_before_open_witness:
  "received_by (run [Click, MediaSettled 0 NoFault, OnOpen 4, OnAudioProcess 6 [Num 0]]
     initial_world) 7 = [] \<and>
   scriptProcessorRef (run [Click, MediaSettled 0 NoFault, Resolved 4, OnAudioProcess 6 [Num 0]]
     initial_world) = None \<and>
   \<not> wired (run [Click, MediaSettled 0 NoFault, Resolved 4, OnAudioProcess 6 [Num 0]]
     initial_world) 6 \<and>
   queued_sends (run [Click, MediaSettled 0 NoFault, Resolved 4, OnAudioProcess 6 [Num 0]]
     initial_world) 4 = [] \<and>
   received_by (run [Click, MediaSettled 0 NoFault, Resolved 4, OnAudioProcess 6 [Num 0]]
     initial_world) 5 = [] \<and>
   received_by (run [OnAudioProcess 6 [Num 0]] open_world) 7 \<noteq> []"
proof -
  have a: "\<forall>e \<in> set [Click, MediaSettled 0 NoFault, OnOpen 4, OnAudioProcess 6 [Num 0]].
      \<not> is_resolved e" by simp
  have b: "\<forall>e \<in> set [Click, MediaSettled 0 NoFault, Resolved 4, OnAudioProcess 6 [Num 0]].
      \<not> is_onopen e" by simp
  note t1 = no_send_before_open
    [where evs = "[Click, MediaSettled 0 NoFault, OnOpen 4, OnAudioProcess 6 [Num 0]]"]
  note t2 = no_send_before_open
    [where evs = "[Click, MediaSettled 0 NoFault, Resolved 4, OnAudioProcess 6 [Num 0]]"]
  from t1 a have 1: "received_by (run [Click, MediaSettled 0 NoFault, OnOpen 4,
      OnAudioProcess 6 [Num 0]] initial_world) 7 = []" by blast
  from t2 b have 2: "scriptProcessorRef (run [Click, MediaSettled 0 NoFault, Resolved 4,
      OnAudioProcess 6 [Num 0]] initial_world) = None \<and>
   \<not> wired (run [Click, MediaSettled 0 NoFault, Resolved 4, OnAudioProcess 6 [Num 0]]
     initial_world) 6 \<and>
   queued_sends (run [Click, MediaSettled 0 NoFault, Resolved 4, OnAudioProcess 6 [Num 0]]
     initial_world) 4 = [] \<and>
   received_by (run [Click, MediaSettled 0 NoFault, Resolved 4, OnAudioProcess 6 [Num 0]]
     initial_world) 5 = []" by blast
  have 3: "received_by (run [OnAudioProcess 6 [Num 0]] open_world) 7 \<noteq> []"
    by (simp add: open_world_eq onaudioprocess_def createBlob_total promise_then_def
        received_by_def)
  from 1 2 3 show ?thesis by blast
qed


subsection \<open>Capture across interruptions\<close>

lemma flush_session_object:
  "is_session_object ob \<Longrightarrow> heap (flush_playback w) k = Some ob \<longleftrightarrow> heap w k = Some ob"
proof (cases "heap w k")
  case None
  then show ?thesis by (simp add: heap_flush)
next
  case (Some ob')
  assume "is_session_object ob"
  then show ?thesis using Some by (cases ob'; cases ob) (auto simp: heap_flush)
qed

lemma flush_promise:
  "heap (flush_playback w) p = Some (SessionPromise st stream cin cout) \<longleftrightarrow>
   heap w p = Some (SessionPromise st stream cin cout)"
  by (rule flush_session_object) simp

lemma flush_session:
  "heap (flush_playback w) s = Some (Session c f r) \<longleftrightarrow> heap w s = Some (Session c f r)"
  by (rule flush_session_object) simp

lemma received_flush [simp]: "received_by (flush_playback w) s = received_by w s"
  by (simp add: received_by_rcv flush_playback_def)

lemma received_uncaught [simp]: "received_by (w\<lparr>uncaught := n\<rparr>) s = received_by w s"
  by (simp add: received_by_def)

lemma received_heap_upd:
  "received_by (w\<lparr>heap := (heap w)(k \<mapsto> ob)\<rparr>) s =
     (if s = k then rcv_of (Some ob) else received_by w s)"
  by (simp add: received_by_rcv)

lemma received_run_reaction_flush:
  "received_by (run_reaction t r (flush_playback w)) s = received_by (run_reaction t r w) s"
proof (cases r)
  case CloseSession
  then show ?thesis by (simp add: received_by_rcv flush_playback_def)
next
  case (SendRealtimeInput b)
  show ?thesis
  proof (cases "\<exists>c f rc. heap w t = Some (Session c f rc)")
    case True
    then obtain c f rc where t: "heap w t = Some (Session c f rc)" by blast
    then have t': "heap (flush_playback w) t = Some (Session c f rc)"
      by (simp add: flush_session)
    show ?thesis using SendRealtimeInput t t'
      by (simp add: received_heap_upd)
  next
    case False
    then have 1: "run_reaction t r w = w" using SendRealtimeInput
      by (auto split: option.splits obj.splits)
    from False have "\<not> (\<exists>c f rc. heap (flush_playback w) t = Some (Session c f rc))"
      by (simp add: flush_session)
    then have 2: "run_reaction t r (flush_playback w) = flush_playback w" using SendRealtimeInput
      by (auto split: option.splits obj.splits)
    show ?thesis by (simp add: 1 2)
  qed
qed

lemma received_promise_then_flush:
  "received_by (promise_then p r (flush_playback w)) s = received_by (promise_then p r w) s"
proof (cases "\<exists>st stream cin cout. heap w p = Some (SessionPromise st stream cin cout)")
  case True
  then obtain st stream cin cout where p: "heap w p = Some (SessionPromise st stream cin cout)"
    by blast
  then have p': "heap (flush_playback w) p = Some (SessionPromise st stream cin cout)"
    by (simp add: flush_promise)
  show ?thesis
  proof (cases st)
    case (Pending q)
    then show ?thesis using p p' by (simp add: promise_then_def received_heap_upd)
  next
    case (Fulfilled t)
    then show ?thesis using p p' by (simp add: promise_then_def received_run_reaction_flush)
  next
    case Rejected
    then show ?thesis using p p' by (simp add: promise_then_def)
  qed
next
  case False
  then have 1: "promise_then p r w = w"
    by (auto simp: promise_then_def split: option.splits obj.splits)
  from False have "\<not> (\<exists>st stream cin cout.
      heap (flush_playback w) p = Some (SessionPromise st stream cin cout))"
    by (simp add: flush_promise)
  then have 2: "promise_then p r (flush_playback w) = flush_playback w"
    by (auto simp: promise_then_def split: option.splits obj.splits)
  show ?thesis by (simp add: 1 2)
qed

lemma capture_after_interrupt:
  "received_by (settle (onaudioprocess inputData (handle_interrupted m w))) s =
   received_by (settle (onaudioprocess inputData w)) s"
proof -
  obtain b where b: "createBlob inputData = Inr b"
    using createBlob_never_fails by blast
  show ?thesis
    by (cases "sessionPromiseRef w")
      (simp_all add: onaudioprocess_def b handle_interrupted_def received_promise_then_flush)
qed

lemma handle_audio_failed_capture:
  assumes "handle_audio now m w = Inl (e, v)"
  shows "sessionPromiseRef v = sessionPromiseRef w \<and> mediaStreamRef v = mediaStreamRef w \<and>
         inputAudioContextRef v = inputAudioContextRef w \<and>
         mediaStreamSourceRef v = mediaStreamSourceRef w \<and>
         scriptProcessorRef v = scriptProcessorRef w \<and>
         (\<forall>h. h < nextHandle w \<longrightarrow> heap v h = heap w h)"
  using assms
  by (auto simp: handle_audio_def alloc_def Let_def split: sum.splits option.splits if_splits)

lemma settle_onmessage_capture:
  "sessionPromiseRef (settle (onmessage cin cout now m w)) = sessionPromiseRef w \<and>
   mediaStreamRef (settle (onmessage cin cout now m w)) = mediaStreamRef w \<and>
   inputAudioContextRef (settle (onmessage cin cout now m w)) = inputAudioContextRef w \<and>
   mediaStreamSourceRef (settle (onmessage cin cout now m w)) = mediaStreamSourceRef w \<and>
   scriptProcessorRef (settle (onmessage cin cout now m w)) = scriptProcessorRef w \<and>
   (\<forall>h ob. h < nextHandle w \<longrightarrow> heap w h = Some ob \<longrightarrow> \<not> is_source ob \<longrightarrow>
      heap (settle (onmessage cin cout now m w)) h = Some ob)"
proof (cases "handle_audio now m w")
  case (Inl ew)
  obtain e v where ew: "ew = (e, v)" by (cases ew)
  from handle_audio_failed_capture [of now m w e v] Inl ew
  show ?thesis by (simp add: onmessage_def)
next
  case (Inr v)
  note c = handle_audio_capture [OF Inr]
  have "heap (handle_interrupted m v) h = Some ob"
    if "h < nextHandle w" "heap w h = Some ob" "\<not> is_source ob" for h ob
  proof -
    from c that have "heap v h = Some ob" by simp
    with that(3) show ?thesis by (simp add: handle_interrupted_others)
  qed
  with c show ?thesis using Inr by (simp add: onmessage_def)
qed

text \<open>
  C9. Handling an interruption changes the tracked set, \<^verbatim>\<open>nextStartTimeRef\<close> and the
  playback sources, and nothing else; a frame captured right after the interruption reaches
  the session exactly as it would have without it; and no message, interrupting or not,
  whether its handler completes or throws, changes the capture refs (stream, input context,
  source node, script processor, session promise) or any object that is not a playback
  source.
\<close>

theorem interrupt_leaves_capture:
  "(handle_interrupted m w)\<lparr>sourcesRef := sourcesRef w, nextStartTimeRef := nextStartTimeRef w,
      heap := heap w\<rparr> = w \<and>
   (\<forall>h ob. heap w h = Some ob \<longrightarrow> \<not> is_source ob \<longrightarrow>
      heap (handle_interrupted m w) h = Some ob) \<and>
   (\<forall>s. received_by (settle (onaudioprocess inputData (handle_interrupted m w))) s =
        received_by (settle (onaudioprocess inputData w)) s) \<and>
   sessionPromiseRef (settle (onmessage cin cout now m w)) = sessionPromiseRef w \<and>
   mediaStreamRef (settle (onmessage cin cout now m w)) = mediaStreamRef w \<and>
   inputAudioContextRef (settle (onmessage cin cout now m w)) = inputAudioContextRef w \<and>
   mediaStreamSourceRef (settle (onmessage cin cout now m w)) = mediaStreamSourceRef w \<and>
   scriptProcessorRef (settle (onmessage cin cout now m w)) = scriptProcessorRef w \<and>
   (\<forall>h ob. h < nextHandle w \<longrightarrow> heap w h = Some ob \<longrightarrow> \<not> is_source ob \<longrightarrow>
      heap (settle (onmessage cin cout now m w)) h = Some ob)"
proof -
  have others: "\<forall>h ob. heap w h = Some ob \<longrightarrow> \<not> is_source ob \<longrightarrow>
      heap (handle_interrupted m w) h = Some ob"
    by (simp add: handle_interrupted_others)
  have after: "\<forall>s. received_by (settle (onaudioprocess inputData (handle_interrupted m w))) s =
      received_by (settle (onaudioprocess inputData w)) s"
    by (simp add: capture_after_interrupt)
  from handle_interrupted_only [where m = m and w = w] others after
    settle_onmessage_capture [where cin = cin and cout = cout and now = now and m = m and w = w]
  show ?thesis by blast
qed

theorem interrupt_leaves_capture_witness:
  "heap playing_world 6 = Some (ScriptProcessorNode True) \<and>
   heap (handle_interrupted interrupt_message playing_world) 6 = Some (ScriptProcessorNode True) \<and>
   scriptProcessorRef (settle (onmessage [] [] 2 interrupt_message playing_world)) = Some 6 \<and>
   mediaStreamRef (settle (onmessage [] [] 2 interrupt_message playing_world)) = Some 1 \<and>
   sessionPromiseRef (settle (onmessage [] [] 2 interrupt_message playing_world)) = Some 4 \<and>
   heap (settle (onmessage [] [] 2 interrupt_message playing_world)) 6 =
     Some (ScriptProcessorNode True) \<and>
   heap (settle (onmessage [] [] 2 interrupt_message playing_world)) 1 =
     Some (MediaStream False) \<and>
   received_by (settle (onaudioprocess [Num 0]
       (handle_interrupted interrupt_message playing_world))) 7 =
     received_by (settle (onaudioprocess [Num 0] playing_world)) 7 \<and>
   received_by (settle (onaudioprocess [Num 0] playing_world)) 7 \<noteq> []"
proof -
  note t = interrupt_leaves_capture [where m = interrupt_message and w = playing_world
      and cin = "[]" and cout = "[]" and now = 2 and inputData = "[Num 0]"]
  have h6: "heap playing_world 6 = Some (ScriptProcessorNode True)"
    by (simp add: playing_world_eq open_world_eq)
  have h1: "heap playing_world 1 = Some (MediaStream False)"
    by (simp add: playing_world_eq open_world_eq)
  have n: "nextHandle playing_world = 9" by (simp add: playing_world_eq)
  have refs: "scriptProcessorRef playing_world = Some 6" "mediaStreamRef playing_world = Some 1"
    "sessionPromiseRef playing_world = Some 4"
    by (simp_all add: playing_world_eq open_world_eq)
  from t h6 have a: "heap (handle_interrupted interrupt_message playing_world) 6 =
      Some (ScriptProcessorNode True)" by simp
  from t have b: "\<forall>h ob. h < nextHandle playing_world \<longrightarrow> heap playing_world h = Some ob \<longrightarrow>
      \<not> is_source ob \<longrightarrow>
      heap (settle (onmessage [] [] 2 interrupt_message playing_world)) h = Some ob" by blast
  from b h6 n have c6: "heap (settle (onmessage [] [] 2 interrupt_message playing_world)) 6 =
      Some (ScriptProcessorNode True)" by simp
  from b h1 n have c1: "heap (settle (onmessage [] [] 2 interrupt_message playing_world)) 1 =
      Some (MediaStream False)" by simp
  from t have r: "scriptProcessorRef (settle (onmessage [] [] 2 interrupt_message playing_world)) =
      scriptProcessorRef playing_world \<and>
    mediaStreamRef (settle (onmessage [] [] 2 interrupt_message playing_world)) =
      mediaStreamRef playing_world \<and>
    sessionPromiseRef (settle (onmessage [] [] 2 interrupt_message playing_world)) =
      sessionPromiseRef playing_world \<and>
    received_by (settle (onaudioprocess [Num 0]
       (handle_interrupted interrupt_message playing_world))) 7 =
      received_by (settle (onaudioprocess [Num 0] playing_world)) 7" by blast
  have sent: "received_by (settle (onaudioprocess [Num 0] playing_world)) 7 \<noteq> []"
    by (simp add: playing_world_eq open_world_eq onaudioprocess_def createBlob_total
        promise_then_def received_by_def)
  from h6 a c6 c1 r refs sent show ?thesis by simp
qed

end
